theory Spec2Isabelle
  imports Complex_Main
begin

section \<open>Sessions of the driver: neo4j/work/simple.py\<close>

text \<open>
  The theory embeds the class \<open>Session\<close> of \<open>neo4j/work/simple.py\<close> together with the
  two module functions \<open>retry_delay_generator\<close> and \<open>is_retriable_transient_error\<close>.
  A session is a record of its five attributes and of the calls it has made on its
  collaborators; every method takes the session and returns the new session together with
  what the method returns or raises (\<open>Inl\<close> is a raised exception).

  The collaborators (the connection pool, the connection, \<open>Result\<close>, \<open>Transaction\<close>, the
  unit of work, the clock and the random source) are not part of the file. What each of
  their calls does is therefore an argument of the model: an \<open>outcome\<close>, the events the
  call causes on the session before it comes back, and its return value or exception.
  Python's float arithmetic is not part of the file either: the values of a float are a
  datatype, and the three operations the file uses on them are arguments of the model.
\<close>

subsection \<open>Exceptions\<close>

text \<open>
  The exception classes that the file raises or matches in an \<open>except\<close> clause.
  \<open>UserException\<close> is any other subclass of \<open>Exception\<close>; \<open>BaseExc\<close> is an exception
  outside \<open>Exception\<close> (\<open>KeyboardInterrupt\<close>, \<open>SystemExit\<close>), which \<open>except Exception\<close> does
  not catch. \<open>AttributeError\<close> is what Python raises for an attribute of \<open>None\<close>.
  \<open>Neo4jError\<close> stands for the server errors that are not transient; a \<open>TransientError\<close>
  is a \<open>Neo4jError\<close> too.
\<close>

record neo4j_error =
  code :: string
  message :: string

datatype error =
    ValueError string
  | TypeError string
  | AttributeError string
  | TransactionError string
  | ServiceUnavailable string
  | SessionExpired string
  | TransientError neo4j_error
  | Neo4jError neo4j_error
  | UserException string
  | BaseExc string

fun is_Exception :: "error \<Rightarrow> bool" where
  "is_Exception (BaseExc m) = False"
| "is_Exception e = True"

subsection \<open>Data\<close>

datatype access_mode = READ_ACCESS | WRITE_ACCESS

text \<open>
  The values of a Python \<open>float\<close>: a finite number, an infinity or \<open>nan\<close>. The operations
  \<open>*\<close>, \<open>+\<close> and \<open>-\<close> on them round, overflow to an infinity and produce \<open>nan\<close> as IEEE
  754 says; they are taken as arguments (\<open>float_ops\<close>), so that nothing is assumed of
  them. A comparison of two floats does not round: \<open>pf_gt\<close> is \<open>>\<close>, false on \<open>nan\<close>.
  The times and delays of the configuration are floats, as their defaults are.
\<close>

datatype pyfloat = Finite real | PosInf | NegInf | NaN

record float_ops =
  f_mul :: "pyfloat \<Rightarrow> pyfloat \<Rightarrow> pyfloat"
  f_add :: "pyfloat \<Rightarrow> pyfloat \<Rightarrow> pyfloat"
  f_sub :: "pyfloat \<Rightarrow> pyfloat \<Rightarrow> pyfloat"

fun pf_gt :: "pyfloat \<Rightarrow> pyfloat \<Rightarrow> bool" where
  "pf_gt (Finite x) (Finite y) = (x > y)"
| "pf_gt (Finite x) NegInf = True"
| "pf_gt PosInf (Finite y) = True"
| "pf_gt PosInf NegInf = True"
| "pf_gt a b = False"

type_synonym bookmark = "string option"
type_synonym metadata = "(string \<times> string) list option"
type_synonym params = "(string \<times> string) list option"

text \<open>
  The first argument of \<open>run\<close>: a \<open>str\<close>, a \<open>Query\<close> instance, or any other Python value,
  of which only its truth value matters. A \<open>Query\<close> defines neither \<open>__bool__\<close> nor
  \<open>__len__\<close>, so it is always true.
\<close>

datatype query =
    Text string
  | QueryObj string metadata "real option"
  | Other bool

fun query_truthy :: "query \<Rightarrow> bool" where
  "query_truthy (Text t) = (t \<noteq> [])"
| "query_truthy (QueryObj t m tm) = True"
| "query_truthy (Other b) = b"

fun is_str_or_Query :: "query \<Rightarrow> bool" where
  "is_str_or_Query (Other b) = False"
| "is_str_or_Query q = True"

record session_config =
  cfg_bookmarks :: "string list"
  default_access_mode :: access_mode
  database :: "string option"
  fetch_size :: int
  connection_acquisition_timeout :: real
  max_transaction_retry_time :: pyfloat
  initial_retry_delay :: pyfloat
  retry_delay_multiplier :: pyfloat
  retry_delay_jitter_factor :: pyfloat

text \<open>
  Modelled from the spec: the classes \<open>Result\<close> and \<open>Transaction\<close> (neo4j/work/result.py,
  neo4j/work/transaction.py) are missing. The session reads two attributes of them,
  \<open>_bookmark\<close> (the post-completion bookmark value, none before completion) and \<open>_closed\<close>
  (the closed/open state, also returned by \<open>closed()\<close>).
\<close>

record result_handle =
  r_bookmark :: bookmark

record tx_handle =
  t_bookmark :: bookmark
  t_closed :: bool

text \<open>The calls a session makes on its collaborators, in the order it makes them.\<close>

datatype call =
    PoolAcquire access_mode real "string option"
  | ConnSendAll
  | ConnFetchAll
  | ConnRollback
  | ConnRelease nat
  | ResultRun query params "string option" access_mode "string list" params
  | ResultDetach
  | ResultConsume
  | TxBegin "string option" "string list" access_mode metadata "real option"
  | TxCommit
  | TxRollback
  | TxClose
  | UnitOfWork
  | Sleep pyfloat

record session =
  connection :: "nat option"
  transaction :: "tx_handle option"
  autoResult :: "result_handle option"
  bookmarks :: "string list"
  state :: "string option"
  calls :: "call list"

definition init_session :: "session_config \<Rightarrow> session" where
  "init_session session_config =
     \<lparr>connection = None, transaction = None, autoResult = None,
      bookmarks = cfg_bookmarks session_config, state = None, calls = []\<rparr>"

subsection \<open>Bookmarks, release, and the two completion callbacks\<close>

definition collect_bookmark :: "bookmark \<Rightarrow> session \<Rightarrow> session" where
  "collect_bookmark b s =
     (case b of
        None \<Rightarrow> s
      | Some t \<Rightarrow> if t \<noteq> [] then s\<lparr>bookmarks := [t]\<rparr> else s)"

definition disconnect :: "session \<Rightarrow> session" where
  "disconnect s =
     (case connection s of
        None \<Rightarrow> s
      | Some c \<Rightarrow> s\<lparr>connection := None, calls := calls s @ [ConnRelease c]\<rparr>)"

definition result_closed :: "session \<Rightarrow> session" where
  "result_closed s =
     (case autoResult s of
        None \<Rightarrow> s
      | Some r \<Rightarrow> disconnect ((collect_bookmark (r_bookmark r) s)\<lparr>autoResult := None\<rparr>))"

definition transaction_closed :: "session \<Rightarrow> session" where
  "transaction_closed s =
     (case transaction s of
        None \<Rightarrow> s
      | Some t \<Rightarrow> disconnect ((collect_bookmark (t_bookmark t) s)\<lparr>transaction := None\<rparr>))"

subsection \<open>Outcomes of collaborator calls\<close>

text \<open>
  What a collaborator can do to the session while a call on it runs: set the attributes
  the session reads from the current result or transaction object, and invoke the
  callback it was constructed with (\<open>_result_closed\<close>, \<open>_transaction_closed\<close>).
\<close>

datatype event =
    ResultBookmark bookmark
  | TxBookmark bookmark
  | TxClosed bool
  | OnResultClosed
  | OnTransactionClosed

fun apply_event :: "event \<Rightarrow> session \<Rightarrow> session" where
  "apply_event (ResultBookmark b) s =
     s\<lparr>autoResult := map_option (\<lambda>r. r\<lparr>r_bookmark := b\<rparr>) (autoResult s)\<rparr>"
| "apply_event (TxBookmark b) s =
     s\<lparr>transaction := map_option (\<lambda>t. t\<lparr>t_bookmark := b\<rparr>) (transaction s)\<rparr>"
| "apply_event (TxClosed c) s =
     s\<lparr>transaction := map_option (\<lambda>t. t\<lparr>t_closed := c\<rparr>) (transaction s)\<rparr>"
| "apply_event OnResultClosed s = result_closed s"
| "apply_event OnTransactionClosed s = transaction_closed s"

fun apply_events :: "event list \<Rightarrow> session \<Rightarrow> session" where
  "apply_events [] s = s"
| "apply_events (e # es) s = apply_events es (apply_event e s)"

record 'a outcome =
  events :: "event list"
  returns :: "error + 'a"

definition perform :: "call \<Rightarrow> 'a outcome \<Rightarrow> session \<Rightarrow> session \<times> (error + 'a)" where
  "perform c out s = (apply_events (events out) (s\<lparr>calls := calls s @ [c]\<rparr>), returns out)"

text \<open>A call on \<open>self._connection\<close>: an \<open>AttributeError\<close> when the attribute is \<open>None\<close>.\<close>

definition conn_call :: "call \<Rightarrow> 'a outcome \<Rightarrow> session \<Rightarrow> session \<times> (error + 'a)" where
  "conn_call c out s =
     (case connection s of
        None \<Rightarrow> (s, Inl (AttributeError ''NoneType''))
      | Some cx \<Rightarrow> perform c out s)"

text \<open>A call on a local variable \<open>tx\<close> that holds a transaction object or \<open>None\<close>.\<close>

definition tx_call :: "tx_handle option \<Rightarrow> call \<Rightarrow> 'a outcome \<Rightarrow> session
    \<Rightarrow> session \<times> (error + 'a)" where
  "tx_call tx c out s =
     (case tx of
        None \<Rightarrow> (s, Inl (AttributeError ''NoneType''))
      | Some t \<Rightarrow> perform c out s)"

definition then_do :: "session \<times> (error + 'a) \<Rightarrow> (session \<Rightarrow> 'a \<Rightarrow> session \<times> (error + 'b))
    \<Rightarrow> session \<times> (error + 'b)" where
  "then_do m f = (case m of (s, Inl e) \<Rightarrow> (s, Inl e) | (s, Inr v) \<Rightarrow> f s v)"

subsection \<open>Connecting\<close>

record connect_env =
  cn_send_all :: "unit outcome"
  cn_fetch_all :: "unit outcome"
  cn_acquire :: "nat outcome"

definition connect :: "session_config \<Rightarrow> connect_env \<Rightarrow> access_mode option \<Rightarrow> string option
    \<Rightarrow> session \<Rightarrow> session \<times> (error + unit)" where
  "connect cfg env access_mode db s =
     (let am = (case access_mode of None \<Rightarrow> default_access_mode cfg | Some a \<Rightarrow> a) in
      then_do
        (if connection s \<noteq> None then
           then_do (conn_call ConnSendAll (cn_send_all env) s) (\<lambda>s1 u.
           then_do (conn_call ConnFetchAll (cn_fetch_all env) s1) (\<lambda>s2 u.
             (disconnect s2, Inr ())))
         else (s, Inr ()))
        (\<lambda>s3 u.
           then_do (perform (PoolAcquire am (connection_acquisition_timeout cfg) db)
                      (cn_acquire env) s3)
             (\<lambda>s4 c. (s4\<lparr>connection := Some c\<rparr>, Inr ()))))"

subsection \<open>close and the scope exit\<close>

record close_env =
  cl_consume :: "unit outcome"
  cl_rollback :: "unit outcome"
  cl_send_all :: "unit outcome"
  cl_fetch_all :: "unit outcome"

definition close_result :: "close_env \<Rightarrow> session \<Rightarrow> session \<times> (error + unit)" where
  "close_result env s =
     (if autoResult s \<noteq> None \<and> state s \<noteq> Some ''error_state'' then
        (case perform ResultConsume (cl_consume env) s of
           (s1, Inl e) \<Rightarrow>
             if is_Exception e
             then (s1\<lparr>autoResult := None, state := Some ''error_state''\<rparr>, Inr ())
             else (s1, Inl e)
         | (s1, Inr u) \<Rightarrow>
             (case autoResult s1 of
                None \<Rightarrow> (s1\<lparr>autoResult := None, state := Some ''error_state''\<rparr>, Inr ())
              | Some r \<Rightarrow> (collect_bookmark (r_bookmark r) s1, Inr ())))
      else (s, Inr ()))"

definition close_transaction :: "close_env \<Rightarrow> session \<Rightarrow> session \<times> (error + unit)" where
  "close_transaction env s =
     (case transaction s of
        None \<Rightarrow> (s, Inr ())
      | Some t \<Rightarrow>
          then_do (if t_closed t = False then conn_call ConnRollback (cl_rollback env) s
                   else (s, Inr ()))
            (\<lambda>s1 u. (s1\<lparr>transaction := None\<rparr>, Inr ())))"

fun swallowed :: "error \<Rightarrow> bool" where
  "swallowed (Neo4jError e) = True"
| "swallowed (TransientError e) = True"
| "swallowed (TransactionError m) = True"
| "swallowed (ServiceUnavailable m) = True"
| "swallowed (SessionExpired m) = True"
| "swallowed e = False"

definition close_flush :: "close_env \<Rightarrow> session \<Rightarrow> session \<times> (error + unit)" where
  "close_flush env s =
     (case then_do (conn_call ConnSendAll (cl_send_all env) s)
             (\<lambda>s1 u. conn_call ConnFetchAll (cl_fetch_all env) s1) of
        (s2, Inl e) \<Rightarrow> if swallowed e then (disconnect s2, Inr ()) else (disconnect s2, Inl e)
      | (s2, Inr u) \<Rightarrow> (disconnect s2, Inr ()))"

definition close :: "close_env \<Rightarrow> session \<Rightarrow> session \<times> (error + unit)" where
  "close env s =
     (if connection s \<noteq> None then
        then_do (close_result env s) (\<lambda>s1 u.
        then_do (close_transaction env s1) (\<lambda>s2 u.
        then_do (close_flush env s2) (\<lambda>s3 u.
          (s3\<lparr>state := None\<rparr>, Inr ()))))
      else (s, Inr ()))"

definition exit_session :: "bool \<Rightarrow> close_env \<Rightarrow> session \<Rightarrow> session \<times> (error + unit)" where
  "exit_session exception_type_is_None env s =
     close env (s\<lparr>state := Some (if exception_type_is_None then ''graceful_close_state''
                                  else ''error_state'')\<rparr>)"

subsection \<open>run and next_bookmarks\<close>

record run_env =
  rn_detach :: "unit outcome"
  rn_connect :: connect_env
  rn_run :: "unit outcome"

definition detach_autoResult :: "unit outcome \<Rightarrow> session \<Rightarrow> session \<times> (error + unit)" where
  "detach_autoResult out s =
     (if autoResult s \<noteq> None then perform ResultDetach out s else (s, Inr ()))"

text \<open>
  \<open>run\<close>, lines 159 to 207. With a transaction open the method executes
  \<open>raise "hell"\<close>; a \<open>str\<close> is not an exception, and Python raises
  \<open>TypeError: exceptions must derive from BaseException\<close> in its place.
\<close>

definition run :: "session_config \<Rightarrow> run_env \<Rightarrow> query \<Rightarrow> params \<Rightarrow> params \<Rightarrow> session
    \<Rightarrow> session \<times> (error + result_handle option)" where
  "run cfg env q parameters kwparameters s =
     (if \<not> query_truthy q then (s, Inl (ValueError ''Cannot run an empty query''))
      else if \<not> is_str_or_Query q
        then (s, Inl (TypeError ''query must be a string or a Query instance''))
      else if transaction s \<noteq> None
        then (s, Inl (TypeError ''exceptions must derive from BaseException''))
      else
        then_do (detach_autoResult (rn_detach env) s) (\<lambda>s1 u.
        then_do (if connection s1 = None
                 then connect cfg (rn_connect env) (Some (default_access_mode cfg)) (database cfg) s1
                 else (s1, Inr ())) (\<lambda>s2 u.
          (case connection s2 of
             None \<Rightarrow> (s2, Inl (AttributeError ''NoneType''))
           | Some cx \<Rightarrow>
               then_do (perform (ResultRun q parameters (database cfg) (default_access_mode cfg)
                                   (bookmarks s2) kwparameters)
                          (rn_run env) (s2\<lparr>autoResult := Some \<lparr>r_bookmark = None\<rparr>\<rparr>))
                 (\<lambda>s3 u. (s3, Inr (autoResult s3)))))))"

definition next_bookmarks :: "unit outcome \<Rightarrow> session \<Rightarrow> session \<times> (error + string list)" where
  "next_bookmarks out s =
     then_do (detach_autoResult out s) (\<lambda>s1 u.
       (case transaction s1 of
          None \<Rightarrow> (s1, Inr (bookmarks s1))
        | Some t \<Rightarrow>
            if t_closed t
            then (let s2 = (collect_bookmark (t_bookmark t) s1)\<lparr>transaction := None\<rparr>
                  in (s2, Inr (bookmarks s2)))
            else (s1, Inr (bookmarks s1))))"

definition has_transaction :: "session \<Rightarrow> bool" where
  "has_transaction s = (transaction s \<noteq> None)"

subsection \<open>Explicit transactions\<close>

record open_env =
  op_connect :: connect_env
  op_begin :: "unit outcome"

definition open_transaction :: "session_config \<Rightarrow> open_env \<Rightarrow> access_mode \<Rightarrow> string option
    \<Rightarrow> metadata \<Rightarrow> real option \<Rightarrow> session \<Rightarrow> session \<times> (error + unit)" where
  "open_transaction cfg env access_mode db md timeout s =
     then_do (connect cfg (op_connect env) (Some access_mode) db s) (\<lambda>s1 u.
       perform (TxBegin db (bookmarks s1) access_mode md timeout) (op_begin env)
         (s1\<lparr>transaction := Some \<lparr>t_bookmark = None, t_closed = False\<rparr>\<rparr>))"

record begin_env =
  bg_detach :: "unit outcome"
  bg_open :: open_env

definition begin_transaction :: "session_config \<Rightarrow> begin_env \<Rightarrow> metadata \<Rightarrow> real option
    \<Rightarrow> session \<Rightarrow> session \<times> (error + tx_handle option)" where
  "begin_transaction cfg env md timeout s =
     then_do (detach_autoResult (bg_detach env) s) (\<lambda>s1 u.
       if transaction s1 \<noteq> None
       then (s1, Inl (TransactionError ''Explicit transaction already open''))
       else
         then_do (open_transaction cfg (bg_open env) (default_access_mode cfg) (database cfg)
                    md timeout s1)
           (\<lambda>s2 u. (s2, Inr (transaction s2))))"

text \<open>
  \<open>commit_transaction\<close> and \<open>rollback_transaction\<close>, lines 272 to 300: the \<open>finally\<close>
  clause runs \<open>_transaction_closed\<close> whether the delegated call returns or raises.
\<close>

definition commit_transaction :: "bookmark outcome \<Rightarrow> session \<Rightarrow> session \<times> (error + bookmark)" where
  "commit_transaction out s =
     (if transaction s = None then (s, Inl (TransactionError ''No transaction to commit''))
      else (case perform TxCommit out s of (s1, r) \<Rightarrow> (transaction_closed s1, r)))"

definition rollback_transaction :: "unit outcome \<Rightarrow> session \<Rightarrow> session \<times> (error + unit)" where
  "rollback_transaction out s =
     (if transaction s = None then (s, Inl (TransactionError ''No transaction to rollback''))
      else (case perform TxRollback out s of (s1, r) \<Rightarrow> (transaction_closed s1, r)))"

subsection \<open>The retry delay generator and the classification of transient errors\<close>

text \<open>
  One turn of the generator's loop, lines 446 to 448: from the current \<open>delay\<close> and one
  draw of \<open>random()\<close> it yields \<open>delay - jitter + (2 * jitter * random())\<close> and multiplies
  the delay, all in float arithmetic. The loop has no exit: the generator yields once
  for every draw it is asked for.
\<close>

definition retry_delay_next :: "float_ops \<Rightarrow> pyfloat \<Rightarrow> pyfloat \<Rightarrow> pyfloat \<Rightarrow> pyfloat
    \<Rightarrow> pyfloat \<times> pyfloat" where
  "retry_delay_next ops multiplier jitter_factor delay rnd =
     (let jitter = f_mul ops jitter_factor delay
      in (f_add ops (f_sub ops delay jitter) (f_mul ops (f_mul ops (Finite 2) jitter) rnd),
          f_mul ops delay multiplier))"

fun retry_delay_generator :: "float_ops \<Rightarrow> pyfloat \<Rightarrow> pyfloat \<Rightarrow> pyfloat \<Rightarrow> pyfloat list
    \<Rightarrow> pyfloat list" where
  "retry_delay_generator ops initial_delay multiplier jitter_factor [] = []"
| "retry_delay_generator ops initial_delay multiplier jitter_factor (rnd # rnds) =
     (case retry_delay_next ops multiplier jitter_factor initial_delay rnd of
        (v, delay) \<Rightarrow> v # retry_delay_generator ops delay multiplier jitter_factor rnds)"

definition is_retriable_transient_error :: "neo4j_error \<Rightarrow> bool" where
  "is_retriable_transient_error error =
     (\<not> (code error \<in> set [''Neo.TransientError.Transaction.Terminated'',
                            ''Neo.TransientError.Transaction.LockClientStopped'']))"

subsection \<open>Managed transactions\<close>

record unit_of_work =
  uow_callable :: bool
  uow_metadata :: metadata
  uow_timeout :: "real option"

text \<open>
  What the collaborators do during one turn of the loop of \<open>_run_transaction\<close>: the calls
  of \<open>_open_transaction\<close>, the unit of work, \<open>tx.rollback()\<close>, \<open>tx.commit()\<close>,
  \<open>tx._close()\<close>, the value of \<open>perf_counter()\<close> read as \<open>t1\<close>, the draw of
  \<open>random()\<close> made by \<open>next(retry_delay)\<close>, and the call of \<open>sleep\<close>.
\<close>

record 'r attempt =
  at_open :: open_env
  at_work :: "'r outcome"
  at_rollback :: "unit outcome"
  at_commit :: "bookmark outcome"
  at_close :: "unit outcome"
  at_clock :: pyfloat
  at_random :: pyfloat
  at_sleep :: "unit outcome"

definition finally_close :: "tx_handle option \<Rightarrow> unit outcome \<Rightarrow> session \<Rightarrow> error + 'r
    \<Rightarrow> session \<times> (error + 'r)" where
  "finally_close tx out s pending =
     (case tx_call tx TxClose out s of
        (s1, Inl e) \<Rightarrow> (s1, Inl e)
      | (s1, Inr u) \<Rightarrow> (s1, pending))"

definition attempt_body :: "session_config \<Rightarrow> access_mode \<Rightarrow> unit_of_work \<Rightarrow> 'r attempt
    \<Rightarrow> session \<Rightarrow> session \<times> (error + 'r)" where
  "attempt_body cfg access_mode uow a s =
     then_do (open_transaction cfg (at_open a) access_mode (database cfg)
                (uow_metadata uow) (uow_timeout uow) s)
       (\<lambda>s1 u.
          let tx = transaction s1 in
          (case perform UnitOfWork (at_work a) s1 of
             (s2, Inl e) \<Rightarrow>
               if is_Exception e then
                 (case tx_call tx TxRollback (at_rollback a) s2 of
                    (s3, Inl e') \<Rightarrow> finally_close tx (at_close a) s3 (Inl e')
                  | (s3, Inr u) \<Rightarrow> finally_close tx (at_close a) s3 (Inl e))
               else finally_close tx (at_close a) s2 (Inl e)
           | (s2, Inr result) \<Rightarrow>
               (case tx_call tx TxCommit (at_commit a) s2 of
                  (s3, Inl e') \<Rightarrow> finally_close tx (at_close a) s3 (Inl e')
                | (s3, Inr b) \<Rightarrow> finally_close tx (at_close a) s3 (Inr result))))"

text \<open>The \<open>except\<close> clauses of the loop: an exception is recorded or raised again.\<close>

datatype handling = Record | Reraise

fun handle_error :: "error \<Rightarrow> handling" where
  "handle_error (ServiceUnavailable m) = Record"
| "handle_error (SessionExpired m) = Record"
| "handle_error (TransientError e) = (if is_retriable_transient_error e then Record else Reraise)"
| "handle_error e = Reraise"

definition after_loop :: "error list \<Rightarrow> error + 'r" where
  "after_loop errors =
     (if errors \<noteq> [] then Inl (last errors) else Inl (ServiceUnavailable ''Transaction failed''))"

text \<open>
  The loop \<open>while True\<close>, one attempt of the list per turn. The result is the session
  reached and what the method returns or raises; it is \<open>None\<close> when the list is used up
  and the loop would go on. \<open>sleep\<close> is a call on a collaborator: what it raises leaves
  the loop. The call of \<open>log.warning\<close> is not modelled.
\<close>

fun retry_loop :: "float_ops \<Rightarrow> session_config \<Rightarrow> access_mode \<Rightarrow> unit_of_work \<Rightarrow> pyfloat
    \<Rightarrow> pyfloat \<Rightarrow> error list \<Rightarrow> 'r attempt list \<Rightarrow> session
    \<Rightarrow> session \<times> (error + 'r) option" where
  "retry_loop ops cfg access_mode uow t0 delay errors [] s = (s, None)"
| "retry_loop ops cfg access_mode uow t0 delay errors (a # as) s =
     (case attempt_body cfg access_mode uow a s of
        (s1, Inr result) \<Rightarrow> (s1, Some (Inr result))
      | (s1, Inl error) \<Rightarrow>
          (case handle_error error of
             Reraise \<Rightarrow> (s1, Some (Inl error))
           | Record \<Rightarrow>
               if pf_gt (f_sub ops (at_clock a) t0) (max_transaction_retry_time cfg)
               then (s1, Some (after_loop (errors @ [error])))
               else
                 (case retry_delay_next ops (retry_delay_multiplier cfg)
                         (retry_delay_jitter_factor cfg) delay (at_random a) of
                    (d, delay1) \<Rightarrow>
                      (case perform (Sleep d) (at_sleep a) s1 of
                         (s2, Inl e) \<Rightarrow> (s2, Some (Inl e))
                       | (s2, Inr u) \<Rightarrow>
                           retry_loop ops cfg access_mode uow t0 delay1 (errors @ [error])
                             as s2))))"

definition run_transaction :: "float_ops \<Rightarrow> session_config \<Rightarrow> access_mode \<Rightarrow> unit_of_work
    \<Rightarrow> pyfloat \<Rightarrow> 'r attempt list \<Rightarrow> session \<Rightarrow> session \<times> (error + 'r) option" where
  "run_transaction ops cfg access_mode uow t0 attempts s =
     (if \<not> uow_callable uow then (s, Some (Inl (TypeError ''Unit of work is not callable'')))
      else retry_loop ops cfg access_mode uow t0 (initial_retry_delay cfg) [] attempts s)"

definition read_transaction :: "float_ops \<Rightarrow> session_config \<Rightarrow> unit_of_work \<Rightarrow> pyfloat
    \<Rightarrow> 'r attempt list \<Rightarrow> session \<Rightarrow> session \<times> (error + 'r) option" where
  "read_transaction ops cfg uow t0 attempts s =
     run_transaction ops cfg READ_ACCESS uow t0 attempts s"

definition write_transaction :: "float_ops \<Rightarrow> session_config \<Rightarrow> unit_of_work \<Rightarrow> pyfloat
    \<Rightarrow> 'r attempt list \<Rightarrow> session \<Rightarrow> session \<times> (error + 'r) option" where
  "write_transaction ops cfg uow t0 attempts s =
     run_transaction ops cfg WRITE_ACCESS uow t0 attempts s"

subsection \<open>The session invariant\<close>

text \<open>
  At most one of \<open>_autoResult\<close> and \<open>_transaction\<close> is set, and \<open>_connection\<close> is set
  whenever one of them is.
\<close>

definition session_inv :: "session \<Rightarrow> bool" where
  "session_inv s =
     (case (autoResult s, transaction s) of
        (None, None) \<Rightarrow> True
      | (Some r, None) \<Rightarrow> connection s \<noteq> None
      | (None, Some t) \<Rightarrow> connection s \<noteq> None
      | (Some r, Some t) \<Rightarrow> False)"

text \<open>The states of a session: no handle, no transaction, no result.\<close>

definition idle :: "session \<Rightarrow> bool" where
  "idle s = (autoResult s = None \<and> transaction s = None)"

definition no_tx :: "session \<Rightarrow> bool" where
  "no_tx s = (session_inv s \<and> transaction s = None)"

definition no_result :: "session \<Rightarrow> bool" where
  "no_result s = (session_inv s \<and> autoResult s = None)"

subsection \<open>Concrete configurations and collaborators\<close>

definition example_config :: session_config where
  "example_config =
     \<lparr>cfg_bookmarks = [], default_access_mode = WRITE_ACCESS, database = None,
      fetch_size = 1000, connection_acquisition_timeout = 60,
      max_transaction_retry_time = Finite 30, initial_retry_delay = Finite 1,
      retry_delay_multiplier = Finite 2, retry_delay_jitter_factor = Finite (1 / 4)\<rparr>"

text \<open>
  The arithmetic of the examples below: exact on finite values, and \<open>nan\<close> on the others,
  which the examples do not reach. On the numbers of the examples (1, 2, 1/4, 1/2, 30, 31
  and what the file computes from them) the arithmetic of doubles gives the same results,
  since all of them are small multiples of powers of two.
\<close>

fun exact_mul :: "pyfloat \<Rightarrow> pyfloat \<Rightarrow> pyfloat" where
  "exact_mul (Finite x) (Finite y) = Finite (x * y)"
| "exact_mul a b = NaN"

fun exact_add :: "pyfloat \<Rightarrow> pyfloat \<Rightarrow> pyfloat" where
  "exact_add (Finite x) (Finite y) = Finite (x + y)"
| "exact_add a b = NaN"

fun exact_sub :: "pyfloat \<Rightarrow> pyfloat \<Rightarrow> pyfloat" where
  "exact_sub (Finite x) (Finite y) = Finite (x - y)"
| "exact_sub a b = NaN"

definition exact_ops :: float_ops where
  "exact_ops = \<lparr>f_mul = exact_mul, f_add = exact_add, f_sub = exact_sub\<rparr>"

definition returning :: "'a \<Rightarrow> 'a outcome" where
  "returning v = \<lparr>events = [], returns = Inr v\<rparr>"

definition raising :: "error \<Rightarrow> 'a outcome" where
  "raising e = \<lparr>events = [], returns = Inl e\<rparr>"

definition completing :: "event list \<Rightarrow> 'a \<Rightarrow> 'a outcome" where
  "completing evs v = \<lparr>events = evs, returns = Inr v\<rparr>"

definition connect_on :: "nat \<Rightarrow> connect_env" where
  "connect_on c =
     \<lparr>cn_send_all = returning (), cn_fetch_all = returning (), cn_acquire = returning c\<rparr>"

definition open_on :: "nat \<Rightarrow> open_env" where
  "open_on c = \<lparr>op_connect = connect_on c, op_begin = returning ()\<rparr>"

definition a_callable :: unit_of_work where
  "a_callable = \<lparr>uow_callable = True, uow_metadata = None, uow_timeout = None\<rparr>"

definition run_quiet :: run_env where
  "run_quiet = \<lparr>rn_detach = returning (), rn_connect = connect_on 1, rn_run = returning ()\<rparr>"

definition close_unavailable :: close_env where
  "close_unavailable =
     \<lparr>cl_consume = returning (), cl_rollback = returning (),
      cl_send_all = raising (ServiceUnavailable ''connection lost''),
      cl_fetch_all = returning ()\<rparr>"

definition close_completing :: close_env where
  "close_completing =
     \<lparr>cl_consume = completing [ResultBookmark (Some ''B1''), OnResultClosed] (),
      cl_rollback = returning (), cl_send_all = returning (), cl_fetch_all = returning ()\<rparr>"

definition begin_completing :: begin_env where
  "begin_completing =
     \<lparr>bg_detach = completing [ResultBookmark (Some ''B1''), OnResultClosed] (),
      bg_open = open_on 2\<rparr>"

definition after_run :: session where
  "after_run = fst (run example_config run_quiet (Text ''RETURN 1'') None None
                      (init_session example_config))"

text \<open>
  The value of \<open>_bookmark\<close> that a transaction holds when it is finalized: at the first
  call of its callback, or else after the last event of the call.
\<close>

fun reported_bookmark :: "event list \<Rightarrow> bookmark \<Rightarrow> bookmark" where
  "reported_bookmark [] b = b"
| "reported_bookmark (TxBookmark b' # es) b = reported_bookmark es b'"
| "reported_bookmark (OnTransactionClosed # es) b = b"
| "reported_bookmark (e # es) b = reported_bookmark es b"

definition begin_quiet :: begin_env where
  "begin_quiet = \<lparr>bg_detach = returning (), bg_open = open_on 1\<rparr>"

definition in_transaction :: session where
  "in_transaction = fst (begin_transaction example_config begin_quiet None None
                           (init_session example_config))"

definition in_managed :: session where
  "in_managed = fst (open_transaction example_config (open_on 2) WRITE_ACCESS None None None
                       after_run)"

definition commit_reporting :: "bookmark outcome" where
  "commit_reporting =
     completing [TxBookmark (Some ''B1''), TxClosed True, OnTransactionClosed] (Some ''B1'')"

definition rollback_failing :: "unit outcome" where
  "rollback_failing = raising (ServiceUnavailable ''connection lost'')"

text \<open>
  An attempt on connection 1 whose rollback and commit complete the transaction, for a
  given outcome of the unit of work and a given reading of the clock.
\<close>

definition attempt_of :: "'r outcome \<Rightarrow> real \<Rightarrow> 'r attempt" where
  "attempt_of work clock =
     \<lparr>at_open = open_on 1, at_work = work,
      at_rollback = completing [TxClosed True, OnTransactionClosed] (),
      at_commit = commit_reporting, at_close = returning (),
      at_clock = Finite clock, at_random = Finite (1 / 2), at_sleep = returning ()\<rparr>"

definition attempt_unreachable :: "string attempt" where
  "attempt_unreachable =
     (attempt_of (returning ''done'') 1)
       \<lparr>at_open := \<lparr>op_connect = (connect_on 1)\<lparr>cn_acquire :=
                       raising (ServiceUnavailable ''no server'')\<rparr>,
                    op_begin = returning ()\<rparr>\<rparr>"

definition database_unavailable :: neo4j_error where
  "database_unavailable =
     \<lparr>code = ''Neo.TransientError.General.DatabaseUnavailable'', message = ''unavailable''\<rparr>"

definition lock_client_stopped :: neo4j_error where
  "lock_client_stopped =
     \<lparr>code = ''Neo.TransientError.Transaction.LockClientStopped'', message = ''stopped''\<rparr>"

text \<open>
  The calls on collaborators, without the releases of connections that callbacks add; and
  two orders on sessions: the log of calls has grown, by at least one call.
\<close>

fun is_release :: "call \<Rightarrow> bool" where
  "is_release (ConnRelease c) = True"
| "is_release c = False"

definition collaborator_calls :: "session \<Rightarrow> call list" where
  "collaborator_calls s = filter (\<lambda>c. \<not> is_release c) (calls s)"

definition extends :: "session \<Rightarrow> session \<Rightarrow> bool" where
  "extends s s' = (\<exists>rest. calls s' = calls s @ rest)"

definition advances :: "session \<Rightarrow> session \<Rightarrow> bool" where
  "advances s s' = (\<exists>c rest. calls s' = calls s @ c # rest)"

definition begin_quiet_2 :: begin_env where
  "begin_quiet_2 = \<lparr>bg_detach = returning (), bg_open = open_on 2\<rparr>"

section \<open>Bookmarks\<close>

text \<open>
  C7. When a transaction or a result reports a bookmark that is not empty, the bookmarks of
  the session become the list of that one bookmark, whatever they were; an empty
  bookmark or \<open>None\<close> leaves the session as it is. This holds of \<open>_collect_bookmark\<close>
  and of the two callbacks that report a bookmark through it.
\<close>

theorem collect_bookmark_replaces:
  "(t \<noteq> [] \<longrightarrow> collect_bookmark (Some t) s = s\<lparr>bookmarks := [t]\<rparr>)
   \<and> collect_bookmark (Some []) s = s
   \<and> collect_bookmark None s = s
   \<and> (autoResult s = Some r \<longrightarrow>
        bookmarks (result_closed s) =
          (case r_bookmark r of None \<Rightarrow> bookmarks s
           | Some t \<Rightarrow> if t \<noteq> [] then [t] else bookmarks s))
   \<and> (transaction s = Some tx \<longrightarrow>
        bookmarks (transaction_closed s) =
          (case t_bookmark tx of None \<Rightarrow> bookmarks s
           | Some t \<Rightarrow> if t \<noteq> [] then [t] else bookmarks s))"
  by (simp add: collect_bookmark_def result_closed_def transaction_closed_def disconnect_def
      split: option.splits)

theorem collect_bookmark_replaces_witness:
  "collect_bookmark (Some ''B2'')
     ((init_session example_config)\<lparr>bookmarks := [''B0'', ''B1'']\<rparr>)
   = (init_session example_config)\<lparr>bookmarks := [''B2'']\<rparr>"
  using collect_bookmark_replaces
    [of "''B2''" "(init_session example_config)\<lparr>bookmarks := [''B0'', ''B1'']\<rparr>"]
  by simp

section \<open>The invariant of a session\<close>

lemma collect_bookmark_fields [simp]:
  "connection (collect_bookmark b s) = connection s"
  "transaction (collect_bookmark b s) = transaction s"
  "autoResult (collect_bookmark b s) = autoResult s"
  "state (collect_bookmark b s) = state s"
  "calls (collect_bookmark b s) = calls s"
  by (simp_all add: collect_bookmark_def split: option.splits)

lemma disconnect_fields [simp]:
  "connection (disconnect s) = None"
  "transaction (disconnect s) = transaction s"
  "autoResult (disconnect s) = autoResult s"
  "bookmarks (disconnect s) = bookmarks s"
  "state (disconnect s) = state s"
  by (simp_all add: disconnect_def split: option.splits)

lemma result_closed_fields [simp]:
  "autoResult (result_closed s) = None"
  "connection (result_closed s) = (if autoResult s = None then connection s else None)"
  "transaction (result_closed s) = transaction s"
  "state (result_closed s) = state s"
  by (simp_all add: result_closed_def split: option.splits)

lemma transaction_closed_fields [simp]:
  "transaction (transaction_closed s) = None"
  "connection (transaction_closed s) = (if transaction s = None then connection s else None)"
  "autoResult (transaction_closed s) = autoResult s"
  "state (transaction_closed s) = state s"
  by (simp_all add: transaction_closed_def split: option.splits)

lemma transaction_closed_connection:
  "transaction s \<noteq> None \<Longrightarrow> connection (transaction_closed s) = None"
  by (auto simp add: transaction_closed_def)

lemma session_inv_iff:
  "session_inv s \<longleftrightarrow>
     (autoResult s = None \<or> transaction s = None)
     \<and> (autoResult s = None \<and> transaction s = None \<or> connection s \<noteq> None)"
  by (auto simp add: session_inv_def split: option.splits)

lemma session_inv_result_closed: "session_inv s \<Longrightarrow> session_inv (result_closed s)"
  by (auto simp add: session_inv_iff)

lemma session_inv_transaction_closed: "session_inv s \<Longrightarrow> session_inv (transaction_closed s)"
  by (auto simp add: session_inv_iff)

lemma session_inv_apply_event: "session_inv s \<Longrightarrow> session_inv (apply_event e s)"
  by (cases e)
     (auto simp add: session_inv_result_closed session_inv_transaction_closed,
      auto simp add: session_inv_iff)

lemma session_inv_apply_events: "session_inv s \<Longrightarrow> session_inv (apply_events es s)"
  by (induction es arbitrary: s) (simp_all add: session_inv_apply_event)

lemma apply_event_transaction_None:
  "transaction s = None \<Longrightarrow> transaction (apply_event e s) = None"
  by (cases e) simp_all

lemma apply_events_transaction_None:
  "transaction s = None \<Longrightarrow> transaction (apply_events es s) = None"
  by (induction es arbitrary: s) (simp_all add: apply_event_transaction_None)

lemma apply_event_autoResult_None:
  "autoResult s = None \<Longrightarrow> autoResult (apply_event e s) = None"
  by (cases e) simp_all

lemma apply_events_autoResult_None:
  "autoResult s = None \<Longrightarrow> autoResult (apply_events es s) = None"
  by (induction es arbitrary: s) (simp_all add: apply_event_autoResult_None)

lemma apply_events_OnResultClosed:
  "OnResultClosed \<in> set es \<Longrightarrow> autoResult (apply_events es s) = None"
  by (induction es arbitrary: s) (auto simp add: apply_events_autoResult_None)

lemma apply_event_state [simp]: "state (apply_event e s) = state s"
  by (cases e) simp_all

lemma apply_events_state [simp]: "state (apply_events es s) = state s"
  by (induction es arbitrary: s) simp_all

lemma session_inv_calls [simp]: "session_inv (s\<lparr>calls := cs\<rparr>) = session_inv s"
  by (simp add: session_inv_iff)

lemma session_inv_state [simp]: "session_inv (s\<lparr>state := st\<rparr>) = session_inv s"
  by (simp add: session_inv_iff)

lemma session_inv_perform: "session_inv s \<Longrightarrow> session_inv (fst (perform c out s))"
  by (simp add: perform_def session_inv_apply_events)

lemma perform_transaction_None:
  "transaction s = None \<Longrightarrow> transaction (fst (perform c out s)) = None"
  by (simp add: perform_def apply_events_transaction_None)

lemma perform_autoResult_None:
  "autoResult s = None \<Longrightarrow> autoResult (fst (perform c out s)) = None"
  by (simp add: perform_def apply_events_autoResult_None)

lemma idle_inv: "idle s \<Longrightarrow> session_inv s"
  by (simp add: idle_def session_inv_iff)

lemma idle_perform: "idle s \<Longrightarrow> idle (fst (perform c out s))"
  by (simp add: idle_def perform_transaction_None perform_autoResult_None)

lemma idle_conn_call: "idle s \<Longrightarrow> idle (fst (conn_call c out s))"
  by (simp add: conn_call_def idle_perform split: option.splits)

lemma idle_disconnect: "idle s \<Longrightarrow> idle (disconnect s)"
  by (simp add: idle_def)

lemma then_do_fst:
  assumes "\<And>s e. m = (s, Inl e) \<Longrightarrow> Q s"
    and "\<And>s v. m = (s, Inr v) \<Longrightarrow> Q (fst (f s v))"
  shows "Q (fst (then_do m f))"
  using assms by (cases m) (auto simp add: then_do_def split: sum.splits)

lemma then_do_preserves:
  assumes "P (fst m)" and "\<And>s v. P s \<Longrightarrow> P (fst (f s v))"
  shows "P (fst (then_do m f))"
  using assms by (cases m) (auto simp add: then_do_def split: sum.splits)

lemma idle_connection [simp]: "idle (s\<lparr>connection := c\<rparr>) = idle s"
  by (simp add: idle_def)

lemma idle_connect: "idle s \<Longrightarrow> idle (fst (connect cfg env am db s))"
  unfolding connect_def Let_def
  by (auto intro!: then_do_preserves [where P = idle] idle_conn_call idle_perform idle_disconnect)

lemma connect_connection:
  "connect cfg env am db s = (s', Inr u) \<Longrightarrow> connection s' \<noteq> None"
  unfolding connect_def Let_def then_do_def
  by (auto split: prod.splits sum.splits if_splits)

lemma no_tx_perform: "no_tx s \<Longrightarrow> no_tx (fst (perform c out s))"
  by (simp add: no_tx_def session_inv_perform perform_transaction_None)

lemma no_result_perform: "no_result s \<Longrightarrow> no_result (fst (perform c out s))"
  by (simp add: no_result_def session_inv_perform perform_autoResult_None)

lemma no_tx_detach: "no_tx s \<Longrightarrow> no_tx (fst (detach_autoResult out s))"
  by (simp add: detach_autoResult_def no_tx_perform)

lemma idle_no_tx: "idle s \<Longrightarrow> no_tx s"
  by (simp add: idle_def no_tx_def session_inv_iff)

lemma no_tx_idle: "no_tx s \<Longrightarrow> connection s = None \<Longrightarrow> idle s"
  by (auto simp add: idle_def no_tx_def session_inv_iff)


lemma no_tx_run_tail:
  assumes "no_tx s" and "connection s = Some cx"
  shows "no_tx (fst (then_do (perform c out (s\<lparr>autoResult := Some r\<rparr>)) (\<lambda>s3 u. (s3, Inr (autoResult s3)))))"
proof (rule then_do_preserves [where P = no_tx])
  have "no_tx (s\<lparr>autoResult := Some r\<rparr>)"
    using assms by (simp add: no_tx_def session_inv_iff)
  then show "no_tx (fst (perform c out (s\<lparr>autoResult := Some r\<rparr>)))"
    by (rule no_tx_perform)
next
  fix s' :: session and v :: unit
  assume "no_tx s'"
  then show "no_tx (fst (s', Inr (autoResult s')))" by simp
qed


lemma run_inv:
  assumes "session_inv s"
  shows "session_inv (fst (run cfg env q parameters kwparameters s))"
proof (cases "query_truthy q \<and> is_str_or_Query q \<and> transaction s = None")
  case False
  then show ?thesis using assms by (auto simp add: run_def)
next
  case True
  then have n: "no_tx s" using assms by (simp add: no_tx_def)
  have "no_tx (fst (run cfg env q parameters kwparameters s))"
    unfolding run_def using True apply simp
  proof (rule then_do_preserves [where P = no_tx])
    show "no_tx (fst (detach_autoResult (rn_detach env) s))"
      using n by (rule no_tx_detach)
  next
    fix s1 :: session and u :: unit
    assume n1: "no_tx s1"
    show "no_tx (fst (then_do
         (if connection s1 = None
          then connect cfg (rn_connect env) (Some (default_access_mode cfg)) (database cfg) s1
          else (s1, Inr ()))
         (\<lambda>s2 u. case connection s2 of
                    None \<Rightarrow> (s2, Inl (AttributeError ''NoneType''))
                  | Some cx \<Rightarrow>
                      then_do (perform (ResultRun q parameters (database cfg)
                                 (default_access_mode cfg) (bookmarks s2) kwparameters)
                                 (rn_run env) (s2\<lparr>autoResult := Some \<lparr>r_bookmark = None\<rparr>\<rparr>))
                        (\<lambda>s3 u. (s3, Inr (autoResult s3))))))"
    proof (rule then_do_preserves [where P = no_tx])
      show "no_tx (fst (if connection s1 = None
          then connect cfg (rn_connect env) (Some (default_access_mode cfg)) (database cfg) s1
          else (s1, Inr ())))"
        using n1 by (simp add: idle_no_tx idle_connect no_tx_idle)
    next
      fix s2 :: session and u :: unit
      assume n2: "no_tx s2"
      show "no_tx (fst (case connection s2 of
                    None \<Rightarrow> (s2, Inl (AttributeError ''NoneType''))
                  | Some cx \<Rightarrow>
                      then_do (perform (ResultRun q parameters (database cfg)
                                 (default_access_mode cfg) (bookmarks s2) kwparameters)
                                 (rn_run env) (s2\<lparr>autoResult := Some \<lparr>r_bookmark = None\<rparr>\<rparr>))
                        (\<lambda>s3 u. (s3, Inr (autoResult s3)))))"
        using n2 by (cases "connection s2") (simp_all add: no_tx_run_tail)
    qed
  qed
  then show ?thesis by (simp add: no_tx_def)
qed

lemma commit_inv: "session_inv s \<Longrightarrow> session_inv (fst (commit_transaction out s))"
  by (simp add: commit_transaction_def perform_def session_inv_transaction_closed
        session_inv_apply_events)

lemma rollback_inv: "session_inv s \<Longrightarrow> session_inv (fst (rollback_transaction out s))"
  by (simp add: rollback_transaction_def perform_def session_inv_transaction_closed
        session_inv_apply_events)

lemma session_inv_detach: "session_inv s \<Longrightarrow> session_inv (fst (detach_autoResult out s))"
  by (simp add: detach_autoResult_def session_inv_perform)

lemma next_bookmarks_tail:
  "session_inv s1 \<Longrightarrow> session_inv (fst (case transaction s1 of
          None \<Rightarrow> (s1, Inr (bookmarks s1))
        | Some t \<Rightarrow>
            if t_closed t
            then (let s2 = (collect_bookmark (t_bookmark t) s1)\<lparr>transaction := None\<rparr>
                  in (s2, Inr (bookmarks s2)))
            else (s1, Inr (bookmarks s1))))"
  by (cases "transaction s1") (simp_all add: Let_def session_inv_iff)

lemma next_bookmarks_inv: "session_inv s \<Longrightarrow> session_inv (fst (next_bookmarks out s))"
  unfolding next_bookmarks_def
  by (rule then_do_preserves [where P = session_inv])
     (simp_all add: session_inv_detach next_bookmarks_tail)


lemma open_transaction_inv:
  assumes "idle s"
  shows "session_inv (fst (open_transaction cfg env am db md tm s))"
  unfolding open_transaction_def
proof (rule then_do_fst)
  fix s1 e assume "connect cfg (op_connect env) (Some am) db s = (s1, Inl e)"
  then have "s1 = fst (connect cfg (op_connect env) (Some am) db s)" by simp
  then show "session_inv s1" using assms by (simp add: idle_connect idle_inv)
next
  fix s1 v assume c: "connect cfg (op_connect env) (Some am) db s = (s1, Inr v)"
  then have "s1 = fst (connect cfg (op_connect env) (Some am) db s)" by simp
  then have "idle s1" using assms by (simp add: idle_connect)
  moreover have "connection s1 \<noteq> None" using c by (rule connect_connection)
  ultimately have "session_inv (s1\<lparr>transaction := Some \<lparr>t_bookmark = None, t_closed = False\<rparr>\<rparr>)"
    by (auto simp add: idle_def session_inv_iff)
  then show "session_inv (fst (perform (TxBegin db (bookmarks s1) am md tm) (op_begin env)
         (s1\<lparr>transaction := Some \<lparr>t_bookmark = None, t_closed = False\<rparr>\<rparr>)))"
    by (rule session_inv_perform)
qed

lemma begin_transaction_inv:
  assumes "session_inv s"
    and "autoResult s = None \<or> OnResultClosed \<in> set (events (bg_detach env))"
  shows "session_inv (fst (begin_transaction cfg env md tm s))"
  unfolding begin_transaction_def
proof (rule then_do_fst)
  fix s1 e assume "detach_autoResult (bg_detach env) s = (s1, Inl e)"
  then have "s1 = fst (detach_autoResult (bg_detach env) s)" by simp
  then show "session_inv s1" using assms by (simp add: session_inv_detach)
next
  fix s1 v assume d: "detach_autoResult (bg_detach env) s = (s1, Inr v)"
  then have s1: "s1 = fst (detach_autoResult (bg_detach env) s)" by simp
  then have inv1: "session_inv s1" using assms by (simp add: session_inv_detach)
  have a1: "autoResult s1 = None"
    using assms(2) s1
    by (auto simp add: detach_autoResult_def perform_def apply_events_OnResultClosed)
  show "session_inv (fst (if transaction s1 \<noteq> None
       then (s1, Inl (TransactionError ''Explicit transaction already open''))
       else then_do (open_transaction cfg (bg_open env) (default_access_mode cfg) (database cfg) md tm s1)
              (\<lambda>s2 u. (s2, Inr (transaction s2)))))"
  proof (cases "transaction s1 = None")
    case False
    then show ?thesis using inv1 by simp
  next
    case True
    then have "idle s1" using a1 by (simp add: idle_def)
    then have "session_inv (fst (open_transaction cfg (bg_open env) (default_access_mode cfg)
        (database cfg) md tm s1))"
      by (rule open_transaction_inv)
    then have "session_inv (fst (then_do (open_transaction cfg (bg_open env)
        (default_access_mode cfg) (database cfg) md tm s1) (\<lambda>s2 u. (s2, Inr (transaction s2)))))"
      by (intro then_do_preserves [where P = session_inv]) simp_all
    then show ?thesis using True by simp
  qed
qed

lemma session_inv_drop_result: "session_inv s \<Longrightarrow> session_inv (s\<lparr>autoResult := None\<rparr>)"
  by (auto simp add: session_inv_iff)

lemma session_inv_drop_tx: "session_inv s \<Longrightarrow> session_inv (s\<lparr>transaction := None\<rparr>)"
  by (auto simp add: session_inv_iff)

lemma session_inv_collect [simp]: "session_inv (collect_bookmark b s) = session_inv s"
  by (simp add: session_inv_iff)

lemma close_result_inv:
  assumes "session_inv s"
  shows "session_inv (fst (close_result env s))"
proof (cases "autoResult s \<noteq> None \<and> state s \<noteq> Some ''error_state''")
  case False
  then show ?thesis using assms by (auto simp add: close_result_def)
next
  case True
  obtain s1 r where p: "perform ResultConsume (cl_consume env) s = (s1, r)"
    by (cases "perform ResultConsume (cl_consume env) s")
  then have "s1 = fst (perform ResultConsume (cl_consume env) s)" by simp
  then have inv1: "session_inv s1" using assms by (simp add: session_inv_perform)
  show ?thesis
    using True p inv1
    by (simp add: close_result_def session_inv_drop_result
          split: sum.splits option.splits)
qed

lemma close_result_no_result:
  assumes "session_inv s"
    and "autoResult s = None
         \<or> state s \<noteq> Some ''error_state''
           \<and> (OnResultClosed \<in> set (events (cl_consume env)) \<or> isl (returns (cl_consume env)))"
    and "close_result env s = (s1, Inr u)"
  shows "no_result s1"
proof -
  have "session_inv s1" using close_result_inv [OF assms(1), of env] assms(3) by simp
  moreover have "autoResult s1 = None"
  proof (cases "autoResult s = None")
    case True
    then show ?thesis using assms(3) by (simp add: close_result_def)
  next
    case False
    then have st: "state s \<noteq> Some ''error_state''"
      and ev: "OnResultClosed \<in> set (events (cl_consume env)) \<or> isl (returns (cl_consume env))"
      using assms(2) by auto
    show ?thesis
    proof (cases "returns (cl_consume env)")
      case (Inl e)
      then show ?thesis using False st assms(3)
        by (auto simp add: close_result_def perform_def split: if_splits)
    next
      case (Inr v)
      then have "OnResultClosed \<in> set (events (cl_consume env))" using ev by simp
      then have "autoResult (fst (perform ResultConsume (cl_consume env) s)) = None"
        by (simp add: perform_def apply_events_OnResultClosed)
      then show ?thesis using False st assms(3) Inr
        by (auto simp add: close_result_def perform_def)
    qed
  qed
  ultimately show ?thesis by (simp add: no_result_def)
qed

lemma no_result_conn_call: "no_result s \<Longrightarrow> no_result (fst (conn_call c out s))"
  by (simp add: conn_call_def no_result_perform split: option.splits)

lemma no_result_inv: "no_result s \<Longrightarrow> session_inv s"
  by (simp add: no_result_def)

lemma close_transaction_inv:
  assumes "no_result s"
  shows "session_inv (fst (close_transaction env s))"
proof (cases "transaction s")
  case None
  then show ?thesis using assms by (simp add: close_transaction_def no_result_def)
next
  case (Some t)
  have "no_result (fst (if t_closed t = False then conn_call ConnRollback (cl_rollback env) s
                   else (s, Inr ())))"
    using assms by (simp add: no_result_conn_call)
  then have "session_inv (fst (then_do (if t_closed t = False
                   then conn_call ConnRollback (cl_rollback env) s else (s, Inr ()))
            (\<lambda>s1 u. (s1\<lparr>transaction := None\<rparr>, Inr ()))))"
    by (intro then_do_preserves [where P = session_inv])
       (simp_all add: no_result_def session_inv_drop_tx)
  then show ?thesis using Some by (simp add: close_transaction_def)
qed

lemma close_transaction_idle:
  assumes "no_result s" and "close_transaction env s = (s1, Inr u)"
  shows "idle s1"
proof (cases "transaction s")
  case None
  then show ?thesis using assms by (auto simp add: close_transaction_def no_result_def idle_def)
next
  case (Some t)
  have n: "no_result (fst (if t_closed t = False then conn_call ConnRollback (cl_rollback env) s
                   else (s, Inr ())))"
    using assms(1) by (simp add: no_result_conn_call)
  obtain s0 r where c: "(if t_closed t = False then conn_call ConnRollback (cl_rollback env) s
                   else (s, Inr ())) = (s0, r)"
    by (cases "if t_closed t = False then conn_call ConnRollback (cl_rollback env) s
                   else (s, Inr ())")
  then have "no_result s0" using n by simp
  then show ?thesis using assms(2) Some c
    by (cases r) (auto simp add: close_transaction_def then_do_def no_result_def idle_def)
qed

lemma close_flush_idle:
  assumes "idle s"
  shows "idle (fst (close_flush env s))"
proof -
  have "idle (fst (then_do (conn_call ConnSendAll (cl_send_all env) s)
             (\<lambda>s1 u. conn_call ConnFetchAll (cl_fetch_all env) s1)))"
    using assms by (intro then_do_preserves [where P = idle]) (simp_all add: idle_conn_call)
  then show ?thesis
    by (cases "then_do (conn_call ConnSendAll (cl_send_all env) s)
             (\<lambda>s1 u. conn_call ConnFetchAll (cl_fetch_all env) s1)")
       (auto simp add: close_flush_def idle_disconnect split: sum.splits)
qed

lemma idle_state [simp]: "idle (s\<lparr>state := st\<rparr>) = idle s"
  by (simp add: idle_def)

lemma close_inv:
  assumes "session_inv s"
    and "autoResult s = None
         \<or> state s \<noteq> Some ''error_state''
           \<and> (OnResultClosed \<in> set (events (cl_consume env)) \<or> isl (returns (cl_consume env)))"
  shows "session_inv (fst (close env s))"
proof (cases "connection s = None")
  case True
  then show ?thesis using assms(1) by (simp add: close_def)
next
  case False
  have "session_inv (fst (then_do (close_result env s) (\<lambda>s1 u.
        then_do (close_transaction env s1) (\<lambda>s2 u.
        then_do (close_flush env s2) (\<lambda>s3 u.
          (s3\<lparr>state := None\<rparr>, Inr ()))))))"
  proof (rule then_do_fst)
    fix s1 e assume "close_result env s = (s1, Inl e)"
    then have "s1 = fst (close_result env s)" by simp
    then show "session_inv s1" using assms(1) by (simp add: close_result_inv)
  next
    fix s1 v assume "close_result env s = (s1, Inr v)"
    then have n1: "no_result s1" using assms by (intro close_result_no_result)
    show "session_inv (fst (then_do (close_transaction env s1) (\<lambda>s2 u.
        then_do (close_flush env s2) (\<lambda>s3 u. (s3\<lparr>state := None\<rparr>, Inr ())))))"
    proof (rule then_do_fst)
      fix s2 e assume "close_transaction env s1 = (s2, Inl e)"
      then have "s2 = fst (close_transaction env s1)" by simp
      then show "session_inv s2" using n1 by (simp add: close_transaction_inv)
    next
      fix s2 v assume "close_transaction env s1 = (s2, Inr v)"
      then have "idle s2" using n1 by (intro close_transaction_idle)
      then have "idle (fst (then_do (close_flush env s2)
          (\<lambda>s3 u. (s3\<lparr>state := None\<rparr>, Inr ()))))"
        by (intro then_do_preserves [where P = idle]) (simp_all add: close_flush_idle)
      then show "session_inv (fst (then_do (close_flush env s2)
          (\<lambda>s3 u. (s3\<lparr>state := None\<rparr>, Inr ()))))"
        by (rule idle_inv)
    qed
  qed
  then show ?thesis using False by (simp add: close_def)
qed


lemmas model_defs =
  run_def connect_def then_do_def perform_def conn_call_def tx_call_def detach_autoResult_def
  close_def close_result_def close_transaction_def close_flush_def exit_session_def
  begin_transaction_def open_transaction_def commit_transaction_def rollback_transaction_def
  next_bookmarks_def disconnect_def result_closed_def transaction_closed_def
  collect_bookmark_def init_session_def

lemmas example_defs =
  example_config_def returning_def raising_def completing_def connect_on_def open_on_def
  run_quiet_def close_unavailable_def close_completing_def begin_completing_def after_run_def

lemma after_run_eq:
  "after_run = \<lparr>connection = Some 1, transaction = None,
      autoResult = Some \<lparr>r_bookmark = None\<rparr>, bookmarks = [], state = None,
      calls = [PoolAcquire WRITE_ACCESS 60 None,
               ResultRun (Text ''RETURN 1'') None None WRITE_ACCESS [] None]\<rparr>"
  by (simp add: model_defs example_defs)

text \<open>
  C1 (counterexample). A session that has run a query and leaves its \<open>with\<close> block by an exception is in
  \<open>error_state\<close> when \<open>__exit__\<close> calls \<open>close\<close>. \<open>close\<close> then skips the result, and when
  \<open>send_all\<close> fails with \<open>ServiceUnavailable\<close> it swallows the failure and releases the
  connection: \<open>_autoResult\<close> is still set and \<open>_connection\<close> is \<open>None\<close>.
\<close>

theorem close_breaks_session_inv:
  "session_inv after_run
   \<and> \<not> session_inv (fst (exit_session False close_unavailable after_run))
   \<and> session_inv (after_run\<lparr>state := Some ''error_state''\<rparr>)
   \<and> \<not> session_inv (fst (close close_unavailable (after_run\<lparr>state := Some ''error_state''\<rparr>)))"
  by (simp add: after_run_eq session_inv_def model_defs example_defs)

text \<open>
  \<open>begin_transaction\<close> itself does not clear \<open>_autoResult\<close>: when \<open>_detach\<close> returns
  without the callback of the result having been invoked, the session holds the result
  and the new transaction together.
\<close>

lemma begin_transaction_keeps_result:
  "session_inv after_run
   \<and> autoResult (fst (begin_transaction example_config begin_quiet_2 None None after_run))
       = Some \<lparr>r_bookmark = None\<rparr>
   \<and> transaction (fst (begin_transaction example_config begin_quiet_2 None None after_run))
       = Some \<lparr>t_bookmark = None, t_closed = False\<rparr>
   \<and> \<not> session_inv (fst (begin_transaction example_config begin_quiet_2 None None after_run))"
  by (simp add: after_run_eq session_inv_def begin_quiet_2_def model_defs example_defs)

text \<open>
  C1 (amended). From a session that satisfies the invariant, \<open>run\<close>, \<open>commit_transaction\<close>,
  \<open>rollback_transaction\<close> and \<open>next_bookmarks\<close> lead to a session that satisfies it,
  whatever the collaborators do. \<open>begin_transaction\<close> does so when no result is
  outstanding or \<open>_detach\<close> invokes the callback \<open>_result_closed\<close>; \<open>close\<close> does so when
  no result is outstanding, or the session is not in \<open>error_state\<close> and \<open>consume\<close> raises or
  invokes that callback. The session itself never clears \<open>_autoResult\<close> on these two paths.
\<close>

theorem session_inv_preserved:
  assumes "session_inv s"
  shows "session_inv (fst (run cfg renv q parameters kwparameters s))
    \<and> session_inv (fst (commit_transaction cout s))
    \<and> session_inv (fst (rollback_transaction rout s))
    \<and> session_inv (fst (next_bookmarks dout s))
    \<and> (autoResult s = None \<or> OnResultClosed \<in> set (events (bg_detach benv))
        \<longrightarrow> session_inv (fst (begin_transaction cfg benv md tm s)))
    \<and> (autoResult s = None
          \<or> state s \<noteq> Some ''error_state''
            \<and> (OnResultClosed \<in> set (events (cl_consume cenv)) \<or> isl (returns (cl_consume cenv)))
        \<longrightarrow> session_inv (fst (close cenv s)))"
  using assms
  by (simp add: run_inv commit_inv rollback_inv next_bookmarks_inv begin_transaction_inv close_inv)

theorem session_inv_preserved_witness:
  "session_inv after_run
   \<and> session_inv (fst (run example_config run_quiet (Text ''RETURN 2'') None None after_run))
   \<and> session_inv (fst (begin_transaction example_config begin_completing None None after_run))
   \<and> transaction (fst (begin_transaction example_config begin_completing None None after_run))
       = Some \<lparr>t_bookmark = None, t_closed = False\<rparr>
   \<and> session_inv (fst (close close_completing after_run))
   \<and> autoResult (fst (close close_completing after_run)) = None"
proof -
  have inv: "session_inv after_run"
    by (simp add: after_run_eq session_inv_def)
  have b: "OnResultClosed \<in> set (events (bg_detach begin_completing))"
    by (simp add: begin_completing_def completing_def)
  have c: "state after_run \<noteq> Some ''error_state''
           \<and> OnResultClosed \<in> set (events (cl_consume close_completing))"
    by (simp add: after_run_eq close_completing_def completing_def)
  have t: "transaction (fst (begin_transaction example_config begin_completing None None after_run))
       = Some \<lparr>t_bookmark = None, t_closed = False\<rparr>"
    by (simp add: after_run_eq model_defs example_defs)
  have a: "autoResult (fst (close close_completing after_run)) = None"
    by (simp add: after_run_eq model_defs example_defs)
  show ?thesis
    using session_inv_preserved [OF inv, of example_config run_quiet "Text ''RETURN 2''" None None
        "returning None" "returning ()" "returning ()" begin_completing None None close_completing]
      inv b c t a
    by simp
qed

section \<open>run while a transaction is open\<close>

text \<open>
  C2. With a transaction open, \<open>run\<close> of a query that passes the two argument checks
  executes \<open>raise "hell"\<close>. A string is not an exception, so Python raises the built-in
  \<open>TypeError\<close> ("exceptions must derive from BaseException"), not a \<open>TransactionError\<close>;
  the session is left as it was. \<open>begin_transaction\<close> on the same session raises
  \<open>TransactionError\<close>.
\<close>

theorem run_in_transaction_raises_TypeError:
  "transaction s \<noteq> None \<Longrightarrow> query_truthy q \<Longrightarrow> is_str_or_Query q \<Longrightarrow>
   run cfg env q parameters kwparameters s
     = (s, Inl (TypeError ''exceptions must derive from BaseException''))"
  by (simp add: run_def)

lemma in_transaction_eq:
  "in_transaction = \<lparr>connection = Some 1,
      transaction = Some \<lparr>t_bookmark = None, t_closed = False\<rparr>,
      autoResult = None, bookmarks = [], state = None,
      calls = [PoolAcquire WRITE_ACCESS 60 None, TxBegin None [] WRITE_ACCESS None None]\<rparr>"
  by (simp add: in_transaction_def begin_quiet_def model_defs example_defs)

theorem run_in_transaction_raises_TypeError_witness:
  "transaction in_transaction \<noteq> None
   \<and> run example_config run_quiet (Text ''RETURN 1'') None None in_transaction
       = (in_transaction, Inl (TypeError ''exceptions must derive from BaseException''))
   \<and> snd (begin_transaction example_config begin_quiet None None in_transaction)
       = Inl (TransactionError ''Explicit transaction already open'')"
proof -
  have t: "transaction in_transaction \<noteq> None" by (simp add: in_transaction_eq)
  have b: "snd (begin_transaction example_config begin_quiet None None in_transaction)
       = Inl (TransactionError ''Explicit transaction already open'')"
    by (simp add: in_transaction_eq begin_quiet_def model_defs example_defs)
  show ?thesis
    using run_in_transaction_raises_TypeError [OF t, of "Text ''RETURN 1''" example_config
        run_quiet None None] t b
    by simp
qed

section \<open>commit_transaction and rollback_transaction\<close>

lemma idle_apply_event: "idle s \<Longrightarrow> idle (apply_event e s) \<and> bookmarks (apply_event e s) = bookmarks s"
  by (cases e) (simp_all add: idle_def result_closed_def transaction_closed_def)

lemma idle_apply_events:
  "idle s \<Longrightarrow> idle (apply_events es s) \<and> bookmarks (apply_events es s) = bookmarks s"
  by (induction es arbitrary: s) (simp_all add: idle_apply_event)

lemma transaction_closed_idle: "idle s \<Longrightarrow> transaction_closed s = s"
  by (simp add: idle_def transaction_closed_def)

lemma bookmarks_collect:
  "bookmarks (collect_bookmark b s)
     = (case b of None \<Rightarrow> bookmarks s | Some t \<Rightarrow> if t \<noteq> [] then [t] else bookmarks s)"
  by (simp add: collect_bookmark_def split: option.splits)

lemma bookmarks_transaction_closed:
  "transaction s = Some t \<Longrightarrow>
   bookmarks (transaction_closed s) = bookmarks (collect_bookmark (t_bookmark t) s)"
  by (simp add: transaction_closed_def)

lemma finalize_reported:
  "transaction s = Some t \<Longrightarrow> autoResult s = None \<Longrightarrow>
   bookmarks (transaction_closed (apply_events es s))
     = (case reported_bookmark es (t_bookmark t) of
          None \<Rightarrow> bookmarks s
        | Some b \<Rightarrow> if b \<noteq> [] then [b] else bookmarks s)"
proof (induction es arbitrary: s t)
  case Nil
  then show ?case by (simp add: bookmarks_transaction_closed bookmarks_collect)
next
  case (Cons e es)
  show ?case
  proof (cases e)
    case (ResultBookmark b)
    then show ?thesis using Cons.prems Cons.IH [of "apply_event e s" t]
      by (simp split: option.splits)
  next
    case (TxBookmark b)
    then show ?thesis
      using Cons.prems Cons.IH [of "apply_event e s" "t\<lparr>t_bookmark := b\<rparr>"]
      by (simp split: option.splits)
  next
    case (TxClosed c)
    then show ?thesis
      using Cons.prems Cons.IH [of "apply_event e s" "t\<lparr>t_closed := c\<rparr>"]
      by (simp split: option.splits)
  next
    case OnResultClosed
    then show ?thesis
      using Cons.prems Cons.IH [of "apply_event e s" t]
      by (simp add: result_closed_def split: option.splits)
  next
    case OnTransactionClosed
    have "idle (transaction_closed s)" using Cons.prems by (simp add: idle_def)
    then have "transaction_closed (apply_events es (transaction_closed s))
                = apply_events es (transaction_closed s)"
      and "bookmarks (apply_events es (transaction_closed s)) = bookmarks (transaction_closed s)"
      by (simp_all add: idle_apply_events transaction_closed_idle)
    then show ?thesis
      using OnTransactionClosed Cons.prems
      by (simp add: bookmarks_transaction_closed bookmarks_collect split: option.splits)
  qed
qed

lemma finalized_fields:
  "transaction s \<noteq> None \<Longrightarrow>
   transaction (transaction_closed (apply_events es s)) = None
   \<and> connection (transaction_closed (apply_events es s)) = None"
proof (induction es arbitrary: s)
  case Nil
  then show ?case by auto
next
  case (Cons e es)
  show ?case
  proof (cases "transaction (apply_event e s) = None")
    case False
    then show ?thesis using Cons.IH [of "apply_event e s"] by simp
  next
    case True
    then have e: "e = OnTransactionClosed" using Cons.prems by (cases e) auto
    then have c: "connection (apply_event e s) = None" using Cons.prems by auto
    have "connection (apply_events es s') = None \<and> transaction (apply_events es s') = None"
      if "connection s' = None" "transaction s' = None" for s'
      using that
    proof (induction es arbitrary: s')
      case Nil
      then show ?case by simp
    next
      case (Cons a as)
      have "connection (apply_event a s') = None \<and> transaction (apply_event a s') = None"
        using Cons.prems by (cases a) (simp_all add: result_closed_def disconnect_def split: option.splits)
      then show ?case using Cons.IH by simp
    qed
    then show ?thesis using True c by simp
  qed
qed


lemma released_apply_event:
  "connection s = Some c \<or> ConnRelease c \<in> set (calls s) \<Longrightarrow>
   connection (apply_event e s) = Some c \<or> ConnRelease c \<in> set (calls (apply_event e s))"
  by (cases e)
     (auto simp add: result_closed_def transaction_closed_def disconnect_def
        collect_bookmark_def split: option.splits)

lemma released_apply_events:
  "connection s = Some c \<or> ConnRelease c \<in> set (calls s) \<Longrightarrow>
   connection (apply_events es s) = Some c
   \<or> ConnRelease c \<in> set (calls (apply_events es s))"
  by (induction es arbitrary: s) (simp_all add: released_apply_event)

lemma released_after_finalize:
  assumes "connection s = Some c" and "transaction s \<noteq> None"
  shows "ConnRelease c \<in> set (calls (transaction_closed (apply_events es (s\<lparr>calls := cs\<rparr>))))"
proof -
  define s1 where "s1 = apply_events es (s\<lparr>calls := cs\<rparr>)"
  have r: "connection s1 = Some c \<or> ConnRelease c \<in> set (calls s1)"
    unfolding s1_def using assms(1) by (intro released_apply_events) simp
  have f: "connection (transaction_closed s1) = None"
    using finalized_fields [of "s\<lparr>calls := cs\<rparr>" es] assms(2) by (simp add: s1_def)
  have "ConnRelease c \<in> set (calls (transaction_closed s1))"
  proof (cases "transaction s1")
    case None
    then have "transaction_closed s1 = s1" by (simp add: transaction_closed_def)
    then show ?thesis using r f by auto
  next
    case (Some t)
    then show ?thesis using r
      by (auto simp add: transaction_closed_def disconnect_def collect_bookmark_def
            split: option.splits)
  qed
  then show ?thesis by (simp add: s1_def)
qed

text \<open>
  C6. Without a transaction, \<open>commit_transaction\<close> and \<open>rollback_transaction\<close> raise
  \<open>TransactionError\<close> and leave the session as it is. With a transaction, whatever the
  delegated \<open>commit\<close> or \<open>rollback\<close> does and whether it returns or raises, the method
  returns or raises the same, the transaction is cleared, the connection is released
  (\<open>in_use\<close> is set to false and \<open>_connection\<close> to \<open>None\<close>),
  and the bookmarks are replaced by the bookmark the transaction holds when it is
  finalized, when that bookmark is not empty.
\<close>

theorem commit_rollback_finalize:
  "(transaction s = None \<longrightarrow>
      commit_transaction cout s = (s, Inl (TransactionError ''No transaction to commit''))
      \<and> rollback_transaction rout s = (s, Inl (TransactionError ''No transaction to rollback'')))
   \<and> (transaction s = Some t \<longrightarrow>
        snd (commit_transaction cout s) = returns cout
        \<and> transaction (fst (commit_transaction cout s)) = None
        \<and> connection (fst (commit_transaction cout s)) = None
        \<and> (autoResult s = None \<longrightarrow>
             bookmarks (fst (commit_transaction cout s))
               = (case reported_bookmark (events cout) (t_bookmark t) of
                    None \<Rightarrow> bookmarks s
                  | Some b \<Rightarrow> if b \<noteq> [] then [b] else bookmarks s))
        \<and> (connection s = Some c \<longrightarrow>
             ConnRelease c \<in> set (calls (fst (commit_transaction cout s)))
             \<and> ConnRelease c \<in> set (calls (fst (rollback_transaction rout s))))
        \<and> snd (rollback_transaction rout s) = returns rout
        \<and> transaction (fst (rollback_transaction rout s)) = None
        \<and> connection (fst (rollback_transaction rout s)) = None
        \<and> (autoResult s = None \<longrightarrow>
             bookmarks (fst (rollback_transaction rout s))
               = (case reported_bookmark (events rout) (t_bookmark t) of
                    None \<Rightarrow> bookmarks s
                  | Some b \<Rightarrow> if b \<noteq> [] then [b] else bookmarks s)))"
proof (cases "transaction s")
  case None
  then show ?thesis by (simp add: commit_transaction_def rollback_transaction_def)
next
  case (Some t')
  have c: "fst (commit_transaction cout s)
        = transaction_closed (apply_events (events cout) (s\<lparr>calls := calls s @ [TxCommit]\<rparr>))"
    and r: "fst (rollback_transaction rout s)
        = transaction_closed (apply_events (events rout) (s\<lparr>calls := calls s @ [TxRollback]\<rparr>))"
    using Some by (simp_all add: commit_transaction_def rollback_transaction_def perform_def)
  have f: "transaction (s\<lparr>calls := cs\<rparr>) \<noteq> None" for cs using Some by simp
  have b: "autoResult s = None \<Longrightarrow>
      bookmarks (transaction_closed (apply_events es (s\<lparr>calls := cs\<rparr>)))
        = (case reported_bookmark es (t_bookmark t') of
             None \<Rightarrow> bookmarks s
           | Some b \<Rightarrow> if b \<noteq> [] then [b] else bookmarks s)" for es cs
    using finalize_reported [of "s\<lparr>calls := cs\<rparr>" t' es] Some
    by (simp split: option.splits)
  have rel: "connection s = Some c \<Longrightarrow>
      ConnRelease c \<in> set (calls (transaction_closed (apply_events es (s\<lparr>calls := cs\<rparr>))))"
    for es cs
    using released_after_finalize [of s c es cs] Some by simp
  show ?thesis
    using Some finalized_fields [OF f] b rel
    by (simp add: c r) (simp add: commit_transaction_def rollback_transaction_def perform_def)
qed


theorem commit_rollback_finalize_witness:
  "transaction in_transaction = Some \<lparr>t_bookmark = None, t_closed = False\<rparr>
   \<and> snd (commit_transaction commit_reporting in_transaction) = Inr (Some ''B1'')
   \<and> transaction (fst (commit_transaction commit_reporting in_transaction)) = None
   \<and> connection (fst (commit_transaction commit_reporting in_transaction)) = None
   \<and> bookmarks (fst (commit_transaction commit_reporting in_transaction)) = [''B1'']
   \<and> ConnRelease 1 \<in> set (calls (fst (commit_transaction commit_reporting in_transaction)))
   \<and> snd (rollback_transaction rollback_failing in_transaction)
       = Inl (ServiceUnavailable ''connection lost'')
   \<and> transaction (fst (rollback_transaction rollback_failing in_transaction)) = None
   \<and> connection (fst (rollback_transaction rollback_failing in_transaction)) = None
   \<and> bookmarks (fst (rollback_transaction rollback_failing in_transaction)) = []"
  using commit_rollback_finalize [of in_transaction commit_reporting rollback_failing
      "\<lparr>t_bookmark = None, t_closed = False\<rparr>" 1]
  by (simp add: in_transaction_eq commit_reporting_def rollback_failing_def completing_def
        raising_def)

section \<open>begin_transaction while a transaction is open\<close>

text \<open>
  C9 (amended). With a transaction open and no auto-commit result outstanding,
  \<open>begin_transaction\<close> raises \<open>TransactionError\<close> and returns the session it was given.
\<close>

theorem begin_transaction_already_open:
  "transaction s \<noteq> None \<Longrightarrow> autoResult s = None \<Longrightarrow>
   begin_transaction cfg env md tm s
     = (s, Inl (TransactionError ''Explicit transaction already open''))"
  by (simp add: begin_transaction_def detach_autoResult_def then_do_def)

theorem begin_transaction_already_open_witness:
  "transaction in_transaction \<noteq> None \<and> autoResult in_transaction = None
   \<and> begin_transaction example_config begin_completing None None in_transaction
       = (in_transaction, Inl (TransactionError ''Explicit transaction already open''))"
proof -
  have t: "transaction in_transaction \<noteq> None" and a: "autoResult in_transaction = None"
    by (simp_all add: in_transaction_eq)
  show ?thesis
    using begin_transaction_already_open [OF t a, of example_config begin_completing None None] t a
    by simp
qed

lemma in_managed_eq:
  "in_managed = \<lparr>connection = Some 2,
      transaction = Some \<lparr>t_bookmark = None, t_closed = False\<rparr>,
      autoResult = Some \<lparr>r_bookmark = None\<rparr>, bookmarks = [], state = None,
      calls = [PoolAcquire WRITE_ACCESS 60 None,
               ResultRun (Text ''RETURN 1'') None None WRITE_ACCESS [] None,
               ConnSendAll, ConnFetchAll, ConnRelease 1,
               PoolAcquire WRITE_ACCESS 60 None, TxBegin None [] WRITE_ACCESS None None]\<rparr>"
  by (simp add: in_managed_def after_run_eq model_defs example_defs)

text \<open>
  C9 (counterexample). \<open>begin_transaction\<close> detaches an outstanding result before it
  looks at the transaction. A session that opens a managed transaction while a result is
  outstanding holds both; there the failed call releases the connection, clears the
  result and replaces the bookmarks.
\<close>

theorem begin_transaction_detaches_first:
  "transaction in_managed \<noteq> None
   \<and> snd (begin_transaction example_config begin_completing None None in_managed)
       = Inl (TransactionError ''Explicit transaction already open'')
   \<and> connection in_managed = Some 2
   \<and> connection (fst (begin_transaction example_config begin_completing None None in_managed))
       = None
   \<and> autoResult in_managed = Some \<lparr>r_bookmark = None\<rparr>
   \<and> autoResult (fst (begin_transaction example_config begin_completing None None in_managed))
       = None
   \<and> bookmarks in_managed = []
   \<and> bookmarks (fst (begin_transaction example_config begin_completing None None in_managed))
       = [''B1'']"
  by (simp add: in_managed_eq model_defs example_defs)

section \<open>The retry delay generator\<close>

text \<open>
  The generator yields one value for every draw of \<open>random()\<close>: its loop has no exit.
\<close>

lemma length_retry_delay_generator:
  "length (retry_delay_generator ops d0 m j rnds) = length rnds"
  by (induction rnds arbitrary: d0) (simp_all add: retry_delay_next_def Let_def)


section \<open>Managed transactions\<close>

lemma collaborator_calls_apply_event:
  "collaborator_calls (apply_event e s) = collaborator_calls s"
  by (cases e)
     (simp_all add: collaborator_calls_def result_closed_def transaction_closed_def
        disconnect_def split: option.splits)

lemma collaborator_calls_apply_events:
  "collaborator_calls (apply_events es s) = collaborator_calls s"
  by (induction es arbitrary: s) (simp_all add: collaborator_calls_apply_event)

lemma collaborator_calls_perform:
  "\<not> is_release c \<Longrightarrow>
   collaborator_calls (fst (perform c out s)) = collaborator_calls s @ [c]"
  by (simp add: perform_def collaborator_calls_apply_events)
     (simp add: collaborator_calls_def)

lemma perform_snd [simp]: "snd (perform c out s) = returns out"
  by (simp add: perform_def)

lemma perform_eq: "perform c out s = (fst (perform c out s), returns out)"
  by (simp add: perform_def)

text \<open>
  C3 (amended). When the transaction of an attempt opens, the unit of work raises an
  \<open>Exception\<close> that is neither \<open>ServiceUnavailable\<close>, nor \<open>SessionExpired\<close>, nor a
  retriable \<open>TransientError\<close>, and \<open>tx.rollback()\<close> and \<open>tx._close()\<close> return, then the
  engine raises that exception, and after opening the transaction it calls the unit of
  work once, \<open>rollback\<close> and \<open>_close\<close>, and nothing else: no further attempt and no sleep.
\<close>

theorem unit_of_work_error_not_retried:
  assumes "open_transaction cfg (at_open a) am (database cfg) (uow_metadata uow)
             (uow_timeout uow) s = (s1, Inr ())"
    and "transaction s1 \<noteq> None"
    and "returns (at_work a) = Inl e"
    and "is_Exception e"
    and "handle_error e = Reraise"
    and "returns (at_rollback a) = Inr ()"
    and "returns (at_close a) = Inr ()"
  shows "snd (retry_loop ops cfg am uow t0 delay errors (a # as) s) = Some (Inl e)
    \<and> collaborator_calls (fst (retry_loop ops cfg am uow t0 delay errors (a # as) s))
        = collaborator_calls s1 @ [UnitOfWork, TxRollback, TxClose]"
proof -
  obtain t where t: "transaction s1 = Some t" using assms(2) by auto
  define s2 where "s2 = fst (perform UnitOfWork (at_work a) s1)"
  define s3 where "s3 = fst (perform TxRollback (at_rollback a) s2)"
  define s4 where "s4 = fst (perform TxClose (at_close a) s3)"
  have p2: "perform UnitOfWork (at_work a) s1 = (s2, Inl e)"
    using assms(3) perform_eq [of UnitOfWork "at_work a" s1] by (simp add: s2_def)
  have p3: "perform TxRollback (at_rollback a) s2 = (s3, Inr ())"
    using assms(6) perform_eq [of TxRollback "at_rollback a" s2] by (simp add: s3_def)
  have p4: "perform TxClose (at_close a) s3 = (s4, Inr ())"
    using assms(7) perform_eq [of TxClose "at_close a" s3] by (simp add: s4_def)
  have body: "attempt_body cfg am uow a s = (s4, Inl e)"
    using assms(1,4) t p2 p3 p4
    by (simp add: attempt_body_def then_do_def tx_call_def finally_close_def)
  have c: "collaborator_calls s4 = collaborator_calls s1 @ [UnitOfWork, TxRollback, TxClose]"
    by (simp add: s4_def s3_def s2_def collaborator_calls_perform)
  show ?thesis using body assms(5) c by simp
qed


lemmas engine_defs =
  run_transaction_def attempt_body_def finally_close_def after_loop_def retry_delay_next_def
  exact_ops_def
  attempt_of_def attempt_unreachable_def a_callable_def commit_reporting_def
  is_retriable_transient_error_def database_unavailable_def lock_client_stopped_def
  collaborator_calls_def Let_def

lemma open_fresh:
  "open_transaction example_config (open_on 1) WRITE_ACCESS None None None
     (init_session example_config)
   = (in_transaction, Inr ())"
  by (simp add: in_transaction_eq model_defs example_defs)

theorem unit_of_work_error_not_retried_witness:
  "snd (retry_loop exact_ops example_config WRITE_ACCESS a_callable (Finite 0) (Finite 1) []
          [attempt_of (raising (UserException ''boom'')) 1, attempt_of (returning ''done'') 2]
          (init_session example_config))
     = Some (Inl (UserException ''boom''))
   \<and> collaborator_calls (fst (retry_loop exact_ops example_config WRITE_ACCESS a_callable
          (Finite 0) (Finite 1) []
          [attempt_of (raising (UserException ''boom'')) 1, attempt_of (returning ''done'') 2]
          (init_session example_config)))
     = [PoolAcquire WRITE_ACCESS 60 None, TxBegin None [] WRITE_ACCESS None None,
        UnitOfWork, TxRollback, TxClose]"
proof -
  have o: "open_transaction example_config
             (at_open (attempt_of (raising (UserException ''boom'')) 1 :: string attempt))
             WRITE_ACCESS (database example_config)
             (uow_metadata a_callable) (uow_timeout a_callable) (init_session example_config)
           = (in_transaction, Inr ())"
    using open_fresh by (simp add: attempt_of_def a_callable_def example_config_def)
  have t: "transaction in_transaction \<noteq> None" by (simp add: in_transaction_eq)
  have c: "collaborator_calls in_transaction
           = [PoolAcquire WRITE_ACCESS 60 None, TxBegin None [] WRITE_ACCESS None None]"
    by (simp add: in_transaction_eq collaborator_calls_def)
  show ?thesis
    using unit_of_work_error_not_retried [OF o t, of "UserException ''boom''" exact_ops
        "Finite 0" "Finite 1" "[]" "[attempt_of (returning ''done'') 2]"] c
    by (simp add: attempt_of_def raising_def returning_def completing_def)
qed

text \<open>
  C3 (counterexample). A unit of work that raises \<open>ServiceUnavailable\<close> is rolled back and
  closed, but its exception reaches the outer \<open>except (ServiceUnavailable, SessionExpired)\<close>:
  the engine records it, sleeps and calls the unit of work again.
\<close>

theorem unit_of_work_connectivity_error_retried:
  "snd (run_transaction exact_ops example_config WRITE_ACCESS a_callable (Finite 0)
          [attempt_of (raising (ServiceUnavailable ''connection lost'')) 1,
           attempt_of (returning ''done'') 2]
          (init_session example_config))
     = Some (Inr ''done'')
   \<and> filter (\<lambda>c. c = UnitOfWork \<or> c = Sleep (Finite 1))
        (calls (fst (run_transaction exact_ops example_config WRITE_ACCESS a_callable (Finite 0)
          [attempt_of (raising (ServiceUnavailable ''connection lost'')) 1,
           attempt_of (returning ''done'') 2]
          (init_session example_config))))
     = [UnitOfWork, Sleep (Finite 1), UnitOfWork]"
  by (simp add: engine_defs model_defs example_defs)


text \<open>
  C4. \<open>is_retriable_transient_error\<close> is false exactly for the codes
  \<open>Neo.TransientError.Transaction.Terminated\<close> and
  \<open>Neo.TransientError.Transaction.LockClientStopped\<close>. When an attempt ends with a
  \<open>TransientError\<close>, the engine raises it at once if it is not retriable; if it is, the
  engine records it and goes on to the end of the loop: it raises it when the time is
  used up, and otherwise sleeps and makes the next attempt with the error recorded; what
  \<open>sleep\<close> raises leaves the loop.
\<close>

theorem transient_error_classified:
  "is_retriable_transient_error e
     = (code e \<noteq> ''Neo.TransientError.Transaction.Terminated''
        \<and> code e \<noteq> ''Neo.TransientError.Transaction.LockClientStopped'')
   \<and> handle_error (TransientError e)
       = (if is_retriable_transient_error e then Record else Reraise)
   \<and> (attempt_body cfg am uow a s = (s1, Inl (TransientError e)) \<longrightarrow>
        retry_loop ops cfg am uow t0 delay errors (a # as) s
          = (if \<not> is_retriable_transient_error e then (s1, Some (Inl (TransientError e)))
             else if pf_gt (f_sub ops (at_clock a) t0) (max_transaction_retry_time cfg)
               then (s1, Some (Inl (TransientError e)))
             else
               (case retry_delay_next ops (retry_delay_multiplier cfg)
                       (retry_delay_jitter_factor cfg) delay (at_random a) of
                  (d, delay1) \<Rightarrow>
                    (case perform (Sleep d) (at_sleep a) s1 of
                       (s2, Inl e') \<Rightarrow> (s2, Some (Inl e'))
                     | (s2, Inr u) \<Rightarrow>
                         retry_loop ops cfg am uow t0 delay1 (errors @ [TransientError e]) as
                           s2))))"
  by (simp add: is_retriable_transient_error_def after_loop_def)

lemma attempt_transient:
  "attempt_body example_config WRITE_ACCESS a_callable
     (attempt_of (raising (TransientError e)) 1 :: string attempt) (init_session example_config)
   = (fst (attempt_body example_config WRITE_ACCESS a_callable
        (attempt_of (raising (TransientError e)) 1 :: string attempt)
        (init_session example_config)),
      Inl (TransientError e))"
  by (simp add: engine_defs model_defs example_defs)

theorem transient_error_classified_witness:
  "is_retriable_transient_error database_unavailable
   \<and> \<not> is_retriable_transient_error lock_client_stopped
   \<and> snd (retry_loop exact_ops example_config WRITE_ACCESS a_callable (Finite 0) (Finite 1) []
            [attempt_of (raising (TransientError lock_client_stopped)) 1,
             attempt_of (returning ''done'') 2]
            (init_session example_config))
       = Some (Inl (TransientError lock_client_stopped))
   \<and> snd (retry_loop exact_ops example_config WRITE_ACCESS a_callable (Finite 0) (Finite 1) []
            [attempt_of (raising (TransientError database_unavailable)) 1,
             attempt_of (returning ''done'') 2]
            (init_session example_config))
       = Some (Inr ''done'')"
proof -
  define sl where "sl = fst (attempt_body example_config WRITE_ACCESS a_callable
        (attempt_of (raising (TransientError lock_client_stopped)) 1 :: string attempt)
        (init_session example_config))"
  define sd where "sd = fst (attempt_body example_config WRITE_ACCESS a_callable
        (attempt_of (raising (TransientError database_unavailable)) 1 :: string attempt)
        (init_session example_config))"
  have bl: "attempt_body example_config WRITE_ACCESS a_callable
        (attempt_of (raising (TransientError lock_client_stopped)) 1 :: string attempt)
        (init_session example_config) = (sl, Inl (TransientError lock_client_stopped))"
    unfolding sl_def by (rule attempt_transient)
  have bd: "attempt_body example_config WRITE_ACCESS a_callable
        (attempt_of (raising (TransientError database_unavailable)) 1 :: string attempt)
        (init_session example_config) = (sd, Inl (TransientError database_unavailable))"
    unfolding sd_def by (rule attempt_transient)
  have cl: "\<not> is_retriable_transient_error lock_client_stopped"
    and cd: "is_retriable_transient_error database_unavailable"
    by (simp_all add: is_retriable_transient_error_def lock_client_stopped_def
          database_unavailable_def)
  have "retry_loop exact_ops example_config WRITE_ACCESS a_callable (Finite 0) (Finite 1) []
            [attempt_of (raising (TransientError lock_client_stopped)) 1,
             attempt_of (returning ''done'') 2]
            (init_session example_config)
        = (sl, Some (Inl (TransientError lock_client_stopped)))"
    using transient_error_classified [of lock_client_stopped example_config WRITE_ACCESS
        a_callable "attempt_of (raising (TransientError lock_client_stopped)) 1"
        "init_session example_config" sl exact_ops "Finite 0" "Finite 1" "[]"
        "[attempt_of (returning ''done'') 2]"]
      bl cl
    by simp
  then have l: "snd (retry_loop exact_ops example_config WRITE_ACCESS a_callable (Finite 0)
            (Finite 1) []
            [attempt_of (raising (TransientError lock_client_stopped)) 1,
             attempt_of (returning ''done'') 2]
            (init_session example_config))
        = Some (Inl (TransientError lock_client_stopped))"
    by simp
  have "retry_loop exact_ops example_config WRITE_ACCESS a_callable (Finite 0) (Finite 1) []
            [attempt_of (raising (TransientError database_unavailable)) 1,
             attempt_of (returning ''done'') 2]
            (init_session example_config)
        = retry_loop exact_ops example_config WRITE_ACCESS a_callable (Finite 0) (Finite 2)
            [TransientError database_unavailable] [attempt_of (returning ''done'') 2]
            (sd\<lparr>calls := calls sd @ [Sleep (Finite 1)]\<rparr>)"
    using transient_error_classified [of database_unavailable example_config WRITE_ACCESS
        a_callable "attempt_of (raising (TransientError database_unavailable)) 1"
        "init_session example_config" sd exact_ops "Finite 0" "Finite 1" "[]"
        "[attempt_of (returning ''done'') 2]"]
      bd cd
    by (simp add: retry_delay_next_def exact_ops_def attempt_of_def example_config_def
          perform_def returning_def Let_def)
  moreover have "snd (retry_loop exact_ops example_config WRITE_ACCESS a_callable (Finite 0)
            (Finite 2)
            [TransientError database_unavailable] [attempt_of (returning ''done'') 2]
            (sd\<lparr>calls := calls sd @ [Sleep (Finite 1)]\<rparr>)) = Some (Inr ''done'')"
    unfolding sd_def by (simp add: engine_defs model_defs example_defs)
  ultimately have d: "snd (retry_loop exact_ops example_config WRITE_ACCESS a_callable
            (Finite 0) (Finite 1) []
            [attempt_of (raising (TransientError database_unavailable)) 1,
             attempt_of (returning ''done'') 2]
            (init_session example_config)) = Some (Inr ''done'')"
    by simp
  show ?thesis using cl cd l d by simp
qed


text \<open>
  C5. The elapsed time is compared with \<open>max_transaction_retry_time\<close> only after an
  attempt has failed with an error that was recorded. When it is greater, the engine
  raises that error, the last one recorded, as it is. After the loop the last recorded
  error is raised when there is one, and \<open>ServiceUnavailable("Transaction failed")\<close>
  when there is none.
\<close>

theorem budget_exceeded_raises_last_error:
  "(after_loop [] :: error + 'r) = Inl (ServiceUnavailable ''Transaction failed'')
   \<and> (errors \<noteq> [] \<longrightarrow> (after_loop errors :: error + 'r) = Inl (last errors))
   \<and> (attempt_body cfg am uow (a :: 'r attempt) s = (s1, Inl e) \<and> handle_error e = Record
        \<and> pf_gt (f_sub ops (at_clock a) t0) (max_transaction_retry_time cfg) \<longrightarrow>
        retry_loop ops cfg am uow t0 delay errors (a # as) s
          = (s1, Some (after_loop (errors @ [e])))
        \<and> (after_loop (errors @ [e]) :: error + 'r) = Inl e)"
  by (simp add: after_loop_def)

theorem budget_exceeded_raises_last_error_witness:
  "snd (retry_loop exact_ops example_config WRITE_ACCESS a_callable (Finite 0) (Finite 2)
          [TransientError database_unavailable]
          [attempt_of (raising (SessionExpired ''expired'')) 31 :: string attempt]
          (init_session example_config))
     = Some (Inl (SessionExpired ''expired''))"
proof -
  define s1 where "s1 = fst (attempt_body example_config WRITE_ACCESS a_callable
        (attempt_of (raising (SessionExpired ''expired'')) 31 :: string attempt)
        (init_session example_config))"
  have b: "attempt_body example_config WRITE_ACCESS a_callable
        (attempt_of (raising (SessionExpired ''expired'')) 31 :: string attempt)
        (init_session example_config) = (s1, Inl (SessionExpired ''expired''))"
    unfolding s1_def by (simp add: engine_defs model_defs example_defs)
  have c: "pf_gt (f_sub exact_ops
             (at_clock (attempt_of (raising (SessionExpired ''expired'')) 31 :: string attempt))
             (Finite 0))
           (max_transaction_retry_time example_config)"
    by (simp add: attempt_of_def example_config_def exact_ops_def)
  have h: "attempt_body example_config WRITE_ACCESS a_callable
        (attempt_of (raising (SessionExpired ''expired'')) 31 :: string attempt)
        (init_session example_config) = (s1, Inl (SessionExpired ''expired''))
      \<and> handle_error (SessionExpired ''expired'') = Record
      \<and> pf_gt (f_sub exact_ops
             (at_clock (attempt_of (raising (SessionExpired ''expired'')) 31 :: string attempt))
             (Finite 0))
           (max_transaction_retry_time example_config)"
    using b c by simp
  have "retry_loop exact_ops example_config WRITE_ACCESS a_callable (Finite 0) (Finite 2)
          [TransientError database_unavailable]
          [attempt_of (raising (SessionExpired ''expired'')) 31 :: string attempt]
          (init_session example_config)
        = (s1, Some (after_loop ([TransientError database_unavailable]
                                  @ [SessionExpired ''expired''])))
      \<and> (after_loop ([TransientError database_unavailable] @ [SessionExpired ''expired''])
            :: error + string) = Inl (SessionExpired ''expired'')"
    using budget_exceeded_raises_last_error [of "[TransientError database_unavailable]"
        example_config WRITE_ACCESS a_callable
        "attempt_of (raising (SessionExpired ''expired'')) 31" "init_session example_config"
        s1 "SessionExpired ''expired''" exact_ops "Finite 0" "Finite 2" "[]"] h
    by blast
  then show ?thesis by simp
qed

lemma extends_refl [simp]: "extends s s"
  by (simp add: extends_def)

lemma extends_trans: "extends a b \<Longrightarrow> extends b c \<Longrightarrow> extends a c"
  by (auto simp add: extends_def)

lemma advances_extends: "advances a b \<Longrightarrow> extends b c \<Longrightarrow> advances a c"
  by (auto simp add: advances_def extends_def)

lemma advances_imp_extends: "advances a b \<Longrightarrow> extends a b"
  by (auto simp add: advances_def extends_def)

lemma extends_fields [simp]:
  "extends s (s'\<lparr>connection := c\<rparr>) = extends s s'"
  "extends s (s'\<lparr>transaction := t\<rparr>) = extends s s'"
  "extends s (s'\<lparr>autoResult := r\<rparr>) = extends s s'"
  "extends (s\<lparr>connection := c\<rparr>) s' = extends s s'"
  "extends (s\<lparr>transaction := t\<rparr>) s' = extends s s'"
  by (simp_all add: extends_def)

lemma extends_disconnect: "extends s (disconnect s)"
  by (simp add: extends_def disconnect_def split: option.splits)

lemma extends_apply_event: "extends s (apply_event e s)"
  by (cases e)
     (simp_all add: extends_def result_closed_def transaction_closed_def disconnect_def
        split: option.splits)

lemma extends_apply_events: "extends s (apply_events es s)"
proof (induction es arbitrary: s)
  case Nil
  then show ?case by simp
next
  case (Cons e es)
  show ?case using extends_trans [OF extends_apply_event Cons.IH] by simp
qed

lemma advances_perform: "advances s (fst (perform c out s))"
proof -
  have "advances s (s\<lparr>calls := calls s @ [c]\<rparr>)" by (simp add: advances_def)
  then show ?thesis
    unfolding perform_def using advances_extends extends_apply_events by fastforce
qed

lemma extends_perform: "extends s (fst (perform c out s))"
  by (rule advances_imp_extends) (rule advances_perform)

lemma extends_conn_call: "extends s (fst (conn_call c out s))"
  by (simp add: conn_call_def extends_perform split: option.splits)

lemma extends_tx_call: "extends s (fst (tx_call tx c out s))"
  by (simp add: tx_call_def extends_perform split: option.splits)

lemma then_do_extends:
  assumes "extends s (fst m)" and "\<And>s1 v. extends s1 (fst (f s1 v))"
  shows "extends s (fst (then_do m f))"
proof (cases m)
  case (Pair s1 r)
  then show ?thesis
    using assms(1) extends_trans [OF _ assms(2)]
    by (cases r) (auto simp add: then_do_def)
qed

lemma then_do_advances:
  assumes "advances s (fst m)" and "\<And>s1 v. extends s1 (fst (f s1 v))"
  shows "advances s (fst (then_do m f))"
proof (cases m)
  case (Pair s1 r)
  then show ?thesis
    using assms(1) advances_extends [OF _ assms(2)]
    by (cases r) (auto simp add: then_do_def)
qed

lemma advances_connect: "advances s (fst (connect cfg env am db s))"
proof (cases "connection s")
  case None
  have "advances s (fst (then_do (perform (PoolAcquire a t db) (cn_acquire env) s)
             (\<lambda>s4 c. (s4\<lparr>connection := Some c\<rparr>, Inr ()))))" for a t
    by (rule then_do_advances) (simp_all add: advances_perform)
  then show ?thesis using None by (simp add: connect_def then_do_def Let_def)
next
  case (Some c)
  have "advances s (fst (then_do
        (then_do (conn_call ConnSendAll (cn_send_all env) s) (\<lambda>s1 u.
           then_do (conn_call ConnFetchAll (cn_fetch_all env) s1) (\<lambda>s2 u.
             (disconnect s2, Inr ()))))
        (\<lambda>s3 u.
           then_do (perform (PoolAcquire a t db) (cn_acquire env) s3)
             (\<lambda>s4 c. (s4\<lparr>connection := Some c\<rparr>, Inr ())))))" for a t
  proof (intro then_do_advances then_do_extends)
    show "advances s (fst (conn_call ConnSendAll (cn_send_all env) s))"
      using Some by (simp add: conn_call_def advances_perform)
  qed (simp_all add: extends_conn_call extends_perform extends_disconnect)
  then show ?thesis using Some by (simp add: connect_def Let_def)
qed


lemma extends_connect: "extends s (fst (connect cfg env am db s))"
  by (rule advances_imp_extends) (rule advances_connect)

lemma advances_open_transaction:
  "advances s (fst (open_transaction cfg env am db md tm s))"
  unfolding open_transaction_def
proof (rule then_do_advances)
  show "advances s (fst (connect cfg (op_connect env) (Some am) db s))"
    by (rule advances_connect)
next
  fix s1 :: session and v :: unit
  show "extends s1 (fst (perform (TxBegin db (bookmarks s1) am md tm) (op_begin env)
         (s1\<lparr>transaction := Some \<lparr>t_bookmark = None, t_closed = False\<rparr>\<rparr>)))"
    using extends_perform [of "s1\<lparr>transaction := Some \<lparr>t_bookmark = None, t_closed = False\<rparr>\<rparr>"]
    by simp
qed

lemma extends_finally_close: "extends s (fst (finally_close tx out s pending))"
proof -
  have "extends s (fst (tx_call tx TxClose out s))" by (rule extends_tx_call)
  then show ?thesis
    by (cases "tx_call tx TxClose out s") (auto simp add: finally_close_def split: sum.splits)
qed

lemma extends_after_work:
  "extends s2
     (fst (case r of
             Inl e \<Rightarrow>
               if is_Exception e then
                 (case tx_call tx TxRollback (at_rollback a) s2 of
                    (s3, Inl e') \<Rightarrow> finally_close tx (at_close a) s3 (Inl e')
                  | (s3, Inr u) \<Rightarrow> finally_close tx (at_close a) s3 (Inl e))
               else finally_close tx (at_close a) s2 (Inl e)
           | Inr result \<Rightarrow>
               (case tx_call tx TxCommit (at_commit a) s2 of
                  (s3, Inl e') \<Rightarrow> finally_close tx (at_close a) s3 (Inl e')
                | (s3, Inr b) \<Rightarrow> finally_close tx (at_close a) s3 (Inr result))))"
proof -
  have rb: "extends s2 (fst (finally_close tx (at_close a) s3 p))"
    if "tx_call tx TxRollback (at_rollback a) s2 = (s3, r')" for s3 r' and p :: "error + 'a"
  proof -
    have "extends s2 s3" using that extends_tx_call [of s2 tx TxRollback "at_rollback a"] by simp
    then show ?thesis using extends_finally_close extends_trans by blast
  qed
  have cm: "extends s2 (fst (finally_close tx (at_close a) s3 p))"
    if "tx_call tx TxCommit (at_commit a) s2 = (s3, r')" for s3 r' and p :: "error + 'a"
  proof -
    have "extends s2 s3" using that extends_tx_call [of s2 tx TxCommit "at_commit a"] by simp
    then show ?thesis using extends_finally_close extends_trans by blast
  qed
  show ?thesis
    by (auto simp add: extends_finally_close rb cm split: sum.splits prod.splits)
qed

lemma attempt_body_work:
  assumes "open_transaction cfg (at_open a) am (database cfg) (uow_metadata uow)
             (uow_timeout uow) s = (s1, Inr u)"
  shows "extends (fst (perform UnitOfWork (at_work a) s1)) (fst (attempt_body cfg am uow a s))"
proof (cases "perform UnitOfWork (at_work a) s1")
  case (Pair s2 r)
  then show ?thesis
    using assms extends_after_work [where ?s2.0 = s2 and r = r and tx = "transaction s1" and a = a]
    by (simp add: attempt_body_def then_do_def Let_def)
qed

lemma advances_attempt_body: "advances s (fst (attempt_body cfg am uow a s))"
proof (cases "open_transaction cfg (at_open a) am (database cfg) (uow_metadata uow)
                (uow_timeout uow) s")
  case (Pair s1 r)
  then have a1: "advances s s1"
    using advances_open_transaction [of s cfg "at_open a" am "database cfg" "uow_metadata uow"
        "uow_timeout uow"] by simp
  show ?thesis
  proof (cases r)
    case (Inl e)
    then show ?thesis using Pair a1 by (simp add: attempt_body_def then_do_def)
  next
    case (Inr u)
    have "extends s1 (fst (perform UnitOfWork (at_work a) s1))" by (rule extends_perform)
    then have "extends s1 (fst (attempt_body cfg am uow a s))"
      using attempt_body_work [of cfg a am uow s s1 u] Pair Inr extends_trans by blast
    then show ?thesis using a1 advances_extends by blast
  qed
qed

lemma unit_of_work_called:
  assumes "snd (open_transaction cfg (at_open a) am (database cfg) (uow_metadata uow)
             (uow_timeout uow) s) = Inr u"
  shows "UnitOfWork \<in> set (calls (fst (attempt_body cfg am uow a s)))"
proof -
  obtain s1 where o: "open_transaction cfg (at_open a) am (database cfg) (uow_metadata uow)
             (uow_timeout uow) s = (s1, Inr u)"
    using assms by (cases "open_transaction cfg (at_open a) am (database cfg) (uow_metadata uow)
             (uow_timeout uow) s") simp
  have "UnitOfWork \<in> set (calls (s1\<lparr>calls := calls s1 @ [UnitOfWork]\<rparr>))" by simp
  moreover have "extends (s1\<lparr>calls := calls s1 @ [UnitOfWork]\<rparr>)
      (fst (perform UnitOfWork (at_work a) s1))"
    by (simp add: perform_def extends_apply_events)
  ultimately have "UnitOfWork \<in> set (calls (fst (perform UnitOfWork (at_work a) s1)))"
    by (auto simp add: extends_def)
  then show ?thesis
    using attempt_body_work [OF o] by (auto simp add: extends_def)
qed

lemma extends_retry_loop:
  "extends s (fst (retry_loop ops cfg am uow t0 delay errors as s))"
proof (induction as arbitrary: s delay errors)
  case Nil
  then show ?case by simp
next
  case (Cons a as)
  obtain s1 r where b: "attempt_body cfg am uow a s = (s1, r)"
    by (cases "attempt_body cfg am uow a s")
  then have e1: "extends s s1"
    using advances_attempt_body [of s cfg am uow a] by (simp add: advances_imp_extends)
  have slept: "extends s s2" if "perform (Sleep d) (at_sleep a) s1 = (s2, r')" for d s2 r'
  proof -
    have "extends s1 s2" using that extends_perform [of s1 "Sleep d" "at_sleep a"] by simp
    then show ?thesis using e1 extends_trans by blast
  qed
  have step: "extends s (fst (retry_loop ops cfg am uow t0 d' es as s2))"
    if "perform (Sleep d) (at_sleep a) s1 = (s2, r')" for d d' es s2 r'
    using slept [OF that] Cons.IH extends_trans by blast
  show ?case
    using b e1 slept step
    by (auto simp add: Let_def split: sum.splits handling.splits prod.splits)
qed


text \<open>
  C10 (amended). Whatever \<open>max_transaction_retry_time\<close> is, the engine makes the first
  attempt: it calls a collaborator at least once, and everything the first attempt calls
  is called. When the transaction of the first attempt opens, the unit of work is
  called; when the first attempt succeeds, its result is returned.
\<close>

theorem first_attempt_regardless_of_budget:
  assumes "uow_callable uow"
  shows "(\<exists>c rest. calls (fst (attempt_body cfg am uow a s)) = calls s @ c # rest)
    \<and> (\<exists>rest. calls (fst (run_transaction ops cfg am uow t0 (a # as) s))
                 = calls (fst (attempt_body cfg am uow a s)) @ rest)
    \<and> (snd (open_transaction cfg (at_open a) am (database cfg) (uow_metadata uow)
              (uow_timeout uow) s) = Inr ()
        \<longrightarrow> UnitOfWork \<in> set (calls (fst (run_transaction ops cfg am uow t0 (a # as) s))))
    \<and> (attempt_body cfg am uow a s = (s1, Inr v)
        \<longrightarrow> run_transaction ops cfg am uow t0 (a # as) s = (s1, Some (Inr v)))"
proof -
  obtain s' r where b: "attempt_body cfg am uow a s = (s', r)"
    by (cases "attempt_body cfg am uow a s")
  have first: "\<exists>c rest. calls (fst (attempt_body cfg am uow a s)) = calls s @ c # rest"
    using advances_attempt_body [of s cfg am uow a] by (simp add: advances_def)
  have slept: "extends s' s2" if "perform (Sleep d) (at_sleep a) s' = (s2, r')" for d s2 r'
    using that extends_perform [of s' "Sleep d" "at_sleep a"] by simp
  have step: "extends s' (fst (retry_loop ops cfg am uow t0 d' es as s2))"
    if "perform (Sleep d) (at_sleep a) s' = (s2, r')" for d d' es s2 r'
    using slept [OF that] extends_retry_loop extends_trans by blast
  have "extends s' (fst (retry_loop ops cfg am uow t0 (initial_retry_delay cfg) [] (a # as) s))"
    using b slept step
    by (auto simp add: Let_def split: sum.splits handling.splits prod.splits)
  then have ext: "extends (fst (attempt_body cfg am uow a s))
      (fst (run_transaction ops cfg am uow t0 (a # as) s))"
    using assms b by (simp add: run_transaction_def)
  then have second: "\<exists>rest. calls (fst (run_transaction ops cfg am uow t0 (a # as) s))
                 = calls (fst (attempt_body cfg am uow a s)) @ rest"
    by (simp add: extends_def)
  have third: "UnitOfWork \<in> set (calls (fst (run_transaction ops cfg am uow t0 (a # as) s)))"
    if "snd (open_transaction cfg (at_open a) am (database cfg) (uow_metadata uow)
              (uow_timeout uow) s) = Inr ()"
    using unit_of_work_called [OF that] ext by (auto simp add: extends_def)
  have fourth: "run_transaction ops cfg am uow t0 (a # as) s = (s1, Some (Inr v))"
    if "attempt_body cfg am uow a s = (s1, Inr v)"
    using that assms by (simp add: run_transaction_def)
  show ?thesis using first second third fourth by blast
qed

theorem first_attempt_regardless_of_budget_witness:
  "uow_callable a_callable
   \<and> run_transaction exact_ops (example_config\<lparr>max_transaction_retry_time := Finite (- 1)\<rparr>)
       WRITE_ACCESS a_callable (Finite 0) [attempt_of (returning ''done'') 5]
       (init_session example_config)
     = (fst (attempt_body (example_config\<lparr>max_transaction_retry_time := Finite (- 1)\<rparr>)
               WRITE_ACCESS a_callable (attempt_of (returning ''done'') 5)
               (init_session example_config)),
        Some (Inr ''done''))
   \<and> UnitOfWork \<in> set (calls (fst (run_transaction exact_ops
         (example_config\<lparr>max_transaction_retry_time := Finite (- 1)\<rparr>) WRITE_ACCESS
         a_callable (Finite 0) [attempt_of (returning ''done'') 5]
         (init_session example_config))))"
proof -
  define cfg where "cfg = example_config\<lparr>max_transaction_retry_time := Finite (- 1)\<rparr>"
  define a where "a = (attempt_of (returning ''done'') 5 :: string attempt)"
  define s1 where "s1 = fst (attempt_body cfg WRITE_ACCESS a_callable a
                               (init_session example_config))"
  have c: "uow_callable a_callable" by (simp add: a_callable_def)
  have b: "attempt_body cfg WRITE_ACCESS a_callable a (init_session example_config)
           = (s1, Inr ''done'')"
    unfolding s1_def cfg_def a_def by (simp add: engine_defs model_defs example_defs)
  have o: "snd (open_transaction cfg (at_open a) WRITE_ACCESS (database cfg)
              (uow_metadata a_callable) (uow_timeout a_callable) (init_session example_config))
           = Inr ()"
    unfolding cfg_def a_def by (simp add: engine_defs model_defs example_defs)
  have "run_transaction exact_ops cfg WRITE_ACCESS a_callable (Finite 0) [a]
            (init_session example_config)
          = (s1, Some (Inr ''done''))
        \<and> UnitOfWork \<in> set (calls (fst (run_transaction exact_ops cfg WRITE_ACCESS a_callable
              (Finite 0) [a] (init_session example_config))))"
    using first_attempt_regardless_of_budget [OF c, of cfg WRITE_ACCESS a
        "init_session example_config" exact_ops "Finite 0" "[]" s1 "''done''"] b o
    by blast
  then show ?thesis using c unfolding cfg_def a_def s1_def by blast
qed

text \<open>
  C10 (counterexample). With no time left and a pool that cannot acquire a connection, the
  first attempt fails in \<open>_open_transaction\<close>; the engine raises the
  \<open>ServiceUnavailable\<close> and the unit of work has not been called.
\<close>

theorem unreachable_server_skips_unit_of_work:
  "snd (run_transaction exact_ops (example_config\<lparr>max_transaction_retry_time := Finite 0\<rparr>)
          WRITE_ACCESS a_callable (Finite 0) [attempt_unreachable]
          (init_session example_config))
     = Some (Inl (ServiceUnavailable ''no server''))
   \<and> calls (fst (run_transaction exact_ops
          (example_config\<lparr>max_transaction_retry_time := Finite 0\<rparr>)
          WRITE_ACCESS a_callable (Finite 0) [attempt_unreachable]
          (init_session example_config)))
     = [PoolAcquire WRITE_ACCESS 60 None]
   \<and> UnitOfWork \<notin> set (calls (fst (run_transaction exact_ops
          (example_config\<lparr>max_transaction_retry_time := Finite 0\<rparr>)
          WRITE_ACCESS a_callable (Finite 0) [attempt_unreachable]
          (init_session example_config))))"
  by (simp add: engine_defs model_defs example_defs)

end
